theory Spec2Isabelle
  imports Complex_Main "HOL-Library.Word"
begin

unbundle bit_operations_syntax

section \<open>JavaScript numbers\<close>

text \<open>
  The engine of \<^verbatim>\<open>src/app.js\<close> computes with JavaScript numbers. They are modelled as
  exact reals extended by the three non-finite values a division by zero, a square root
  of a negative number or an explicit \<^verbatim>\<open>NaN\<close> of the source can produce. Rounding,
  overflow and underflow of the double range and the sign of zero are not modelled: every
  zero divisor of the source is a positive zero (a difference \<^verbatim>\<open>x - x\<close>, a sum
  \<^verbatim>\<open>1 + (-1)\<close> or a power of such a value). A number computed in this theory is the
  exact value of which the program computes a rounding; the properties stated for the
  program are those that do not rest on the rounding.
\<close>

datatype jsnum = Num real | NaN | PInf | NInf

instantiation jsnum :: "{zero, one, plus, uminus, minus, times, inverse}"
begin

definition zero_jsnum :: jsnum where
  "zero_jsnum = Num 0"

definition one_jsnum :: jsnum where
  "one_jsnum = Num 1"

fun plus_jsnum :: "jsnum \<Rightarrow> jsnum \<Rightarrow> jsnum" where
  "plus_jsnum (Num a) (Num b) = Num (a + b)"
| "plus_jsnum NaN y = NaN"
| "plus_jsnum x NaN = NaN"
| "plus_jsnum PInf NInf = NaN"
| "plus_jsnum NInf PInf = NaN"
| "plus_jsnum PInf y = PInf"
| "plus_jsnum x PInf = PInf"
| "plus_jsnum NInf y = NInf"
| "plus_jsnum x NInf = NInf"

fun uminus_jsnum :: "jsnum \<Rightarrow> jsnum" where
  "uminus_jsnum (Num a) = Num (- a)"
| "uminus_jsnum NaN = NaN"
| "uminus_jsnum PInf = NInf"
| "uminus_jsnum NInf = PInf"

definition minus_jsnum :: "jsnum \<Rightarrow> jsnum \<Rightarrow> jsnum" where
  "minus_jsnum x y = x + (- y)"

fun times_jsnum :: "jsnum \<Rightarrow> jsnum \<Rightarrow> jsnum" where
  "times_jsnum (Num a) (Num b) = Num (a * b)"
| "times_jsnum NaN y = NaN"
| "times_jsnum x NaN = NaN"
| "times_jsnum (Num a) PInf = (if 0 < a then PInf else if a < 0 then NInf else NaN)"
| "times_jsnum (Num a) NInf = (if 0 < a then NInf else if a < 0 then PInf else NaN)"
| "times_jsnum PInf (Num b) = (if 0 < b then PInf else if b < 0 then NInf else NaN)"
| "times_jsnum NInf (Num b) = (if 0 < b then NInf else if b < 0 then PInf else NaN)"
| "times_jsnum PInf PInf = PInf"
| "times_jsnum NInf NInf = PInf"
| "times_jsnum PInf NInf = NInf"
| "times_jsnum NInf PInf = NInf"

fun divide_jsnum :: "jsnum \<Rightarrow> jsnum \<Rightarrow> jsnum" where
  "divide_jsnum (Num a) (Num b) =
     (if b \<noteq> 0 then Num (a / b)
      else if 0 < a then PInf else if a < 0 then NInf else NaN)"
| "divide_jsnum NaN y = NaN"
| "divide_jsnum x NaN = NaN"
| "divide_jsnum (Num a) PInf = Num 0"
| "divide_jsnum (Num a) NInf = Num 0"
| "divide_jsnum PInf (Num b) = (if 0 \<le> b then PInf else NInf)"
| "divide_jsnum NInf (Num b) = (if 0 \<le> b then NInf else PInf)"
| "divide_jsnum x y = NaN"

definition inverse_jsnum :: "jsnum \<Rightarrow> jsnum" where
  "inverse_jsnum x = divide (Num 1) x"

instance ..

end

text \<open>The comparison operators: every comparison with \<^verbatim>\<open>NaN\<close> is false.\<close>

fun jlt :: "jsnum \<Rightarrow> jsnum \<Rightarrow> bool" where
  "jlt (Num a) (Num b) = (a < b)"
| "jlt NaN y = False"
| "jlt x NaN = False"
| "jlt x NInf = False"
| "jlt PInf y = False"
| "jlt x y = True"

fun jle :: "jsnum \<Rightarrow> jsnum \<Rightarrow> bool" where
  "jle (Num a) (Num b) = (a \<le> b)"
| "jle NaN y = False"
| "jle x NaN = False"
| "jle NInf y = True"
| "jle x PInf = True"
| "jle x y = False"

definition jgt :: "jsnum \<Rightarrow> jsnum \<Rightarrow> bool" where
  "jgt x y = jlt y x"

definition jge :: "jsnum \<Rightarrow> jsnum \<Rightarrow> bool" where
  "jge x y = jle y x"

text \<open>\<^verbatim>\<open>isFinite\<close>, \<^verbatim>\<open>Math.max\<close>, \<^verbatim>\<open>Math.min\<close>, \<^verbatim>\<open>Math.abs\<close>, \<^verbatim>\<open>Math.sqrt\<close>.\<close>

fun isFinite :: "jsnum \<Rightarrow> bool" where
  "isFinite (Num a) = True"
| "isFinite x = False"

fun jmax :: "jsnum \<Rightarrow> jsnum \<Rightarrow> jsnum" where
  "jmax NaN y = NaN"
| "jmax x NaN = NaN"
| "jmax x y = (if jlt x y then y else x)"

fun jmin :: "jsnum \<Rightarrow> jsnum \<Rightarrow> jsnum" where
  "jmin NaN y = NaN"
| "jmin x NaN = NaN"
| "jmin x y = (if jlt y x then y else x)"

fun jabs :: "jsnum \<Rightarrow> jsnum" where
  "jabs (Num a) = Num \<bar>a\<bar>"
| "jabs NaN = NaN"
| "jabs x = PInf"

fun jsqrt :: "jsnum \<Rightarrow> jsnum" where
  "jsqrt (Num a) = (if a < 0 then NaN else Num (sqrt a))"
| "jsqrt PInf = PInf"
| "jsqrt x = NaN"

text \<open>
  \<^verbatim>\<open>Math.pow(x, t)\<close> for a loop index \<open>t\<close> (a non-negative integer):
  \<^verbatim>\<open>Math.pow(x, 0)\<close> is 1 for every \<open>x\<close>, \<^verbatim>\<open>NaN\<close> included.
\<close>

fun jpow :: "jsnum \<Rightarrow> nat \<Rightarrow> jsnum" where
  "jpow x 0 = Num 1"
| "jpow (Num a) t = Num (a ^ t)"
| "jpow NaN t = NaN"
| "jpow PInf t = PInf"
| "jpow NInf t = (if odd t then NInf else PInf)"

text \<open>
  \<^verbatim>\<open>Math.pow(x, 1 / n)\<close> for an array length \<open>n\<close>. For \<open>n = 0\<close> the exponent is
  \<^verbatim>\<open>Infinity\<close>; for \<open>n = 1\<close> it is 1; for \<open>n \<ge> 2\<close> it is a fraction in (0, 1), for which a
  negative finite base gives \<^verbatim>\<open>NaN\<close>.
\<close>

fun jpow_recip :: "jsnum \<Rightarrow> nat \<Rightarrow> jsnum" where
  "jpow_recip NaN n = NaN"
| "jpow_recip x 0 =
     (if jlt (Num 1) (jabs x) then PInf else if jabs x = Num 1 then NaN else Num 0)"
| "jpow_recip x (Suc 0) = x"
| "jpow_recip (Num a) n = (if a < 0 then NaN else Num (root n a))"
| "jpow_recip x n = PInf"

text \<open>
  \<^verbatim>\<open>clamp = (v, a, b) => Math.max(a, Math.min(b, v))\<close>.
\<close>

definition clamp :: "jsnum \<Rightarrow> jsnum \<Rightarrow> jsnum \<Rightarrow> jsnum" where
  "clamp v a b = jmax a (jmin b v)"

text \<open>
  The fields of the model hold finite numbers (the input widgets are read with unary
  plus) and are reals. \<^verbatim>\<open>Number(x) || d\<close> replaces a zero by the default \<open>d\<close>; the
  result enters the arithmetic as a \<open>jsnum\<close>. Years are integers.
\<close>

definition val_or :: "real \<Rightarrow> real \<Rightarrow> real" where
  "val_or x d = (if x = 0 then d else x)"

definition num_or :: "real \<Rightarrow> real \<Rightarrow> jsnum" where
  "num_or x d = Num (val_or x d)"

text \<open>\<^verbatim>\<open>x || d\<close> on a computed number: 0 and \<^verbatim>\<open>NaN\<close> are falsy.\<close>

definition jor :: "jsnum \<Rightarrow> jsnum \<Rightarrow> jsnum" where
  "jor x d = (if x = Num 0 \<or> x = NaN then d else x)"

definition year_or :: "int \<Rightarrow> int \<Rightarrow> int" where
  "year_or x d = (if x = 0 then d else x)"

text \<open>
  Six fields of the model are written by the simulator: the value of an output, the three
  per-hectare costs of a treatment, and the annual and the capital amount of an other-cost
  item. Such a field holds a number; or the number -0 (the arithmetic of this model does
  not tell it from 0, but it is not the 0 that is written over it); or a value that is not
  a number (\<^verbatim>\<open>undefined\<close> for a missing field, \<^verbatim>\<open>null\<close>, a text, as a loaded project
  file can hold them). The engine reads these fields with \<^verbatim>\<open>Number\<close> only, so a value
  that is not a number is represented by the number \<^verbatim>\<open>Number\<close> makes of it: \<^verbatim>\<open>NaN\<close>
  for \<^verbatim>\<open>undefined\<close>, 0 for \<^verbatim>\<open>null\<close>, 5 for the text \<^verbatim>\<open>"5"\<close>.
\<close>

datatype jsval = JsNum jsnum | NegZero | NotNumber jsnum

fun Number :: "jsval \<Rightarrow> jsnum" where
  "Number (JsNum x) = x"
| "Number NegZero = Num 0"
| "Number (NotNumber x) = x"

text \<open>\<^verbatim>\<open>Number(v) || d\<close> on such a field.\<close>

definition number_or :: "jsval \<Rightarrow> jsnum \<Rightarrow> jsnum" where
  "number_or v d = jor (Number v) d"

text \<open>
  \<^verbatim>\<open>new Array(N)\<close> for a number \<open>N\<close>: an array of the length \<open>N\<close> when \<open>N\<close> is an
  integer from 0 to \<open>2 ^ 32 - 1\<close>, and the exception \<^verbatim>\<open>RangeError\<close> otherwise. The
  result is the length of the array.
\<close>

datatype error = RangeError

definition new_Array :: "jsnum \<Rightarrow> error + nat" where
  "new_Array N =
     (case N of
        Num r \<Rightarrow>
          if r = real_of_int \<lfloor>r\<rfloor> \<and> 0 \<le> r \<and> r < 4294967296 then Inr (nat \<lfloor>r\<rfloor>)
          else Inl RangeError
      | NaN \<Rightarrow> Inl RangeError
      | PInf \<Rightarrow> Inl RangeError
      | NInf \<Rightarrow> Inl RangeError)"

text \<open>\<^verbatim>\<open>xs[i] += x\<close> on an array, at an index the caller has checked.\<close>

definition add_at :: "nat \<Rightarrow> jsnum \<Rightarrow> jsnum list \<Rightarrow> jsnum list" where
  "add_at i x xs = xs[i := xs ! i + x]"

section \<open>The model of the evaluation engine\<close>

text \<open>
  The records follow the object \<^verbatim>\<open>model\<close> of the engine (the third application of
  \<^verbatim>\<open>src/app.js\<close>); only the fields the engine reads are kept. A missing numeric field
  behaves as 0 under \<^verbatim>\<open>Number(x) || d\<close>. The horizon \<^verbatim>\<open>time.years\<close> is any number
  (the input handler stores \<^verbatim>\<open>+t.value\<close>); the run count \<^verbatim>\<open>sim.n\<close> of the simulator
  is any number, or is missing.
\<close>

record output_item =
  o_id :: string
  o_value :: jsval

record treatment =
  t_area :: real
  t_deltas :: "(string \<times> real) list"
  t_materialsCost :: jsval
  t_servicesCost :: jsval
  t_labourCost :: jsval
  t_capitalCost :: real
  t_constrained :: bool

record benefit =
  b_category :: string
  b_frequency :: string
  b_startYear :: int
  b_endYear :: int
  b_year :: int
  b_unitValue :: real
  b_quantity :: real
  b_abatement :: real
  b_annualAmount :: real
  b_growthPct :: real
  b_linkAdoption :: bool
  b_linkRisk :: bool
  b_p0 :: real
  b_p1 :: real
  b_consequence :: real

record otherCost =
  c_type :: string
  c_annual :: jsval
  c_startYear :: int
  c_endYear :: int
  c_capital :: jsval
  c_year :: int
  c_constrained :: bool

record time =
  tm_years :: jsnum
  tm_startYear :: int
  tm_discBase :: real
  tm_discLow :: real
  tm_discHigh :: real
  tm_mirrFinance :: real
  tm_mirrReinvest :: real

record scenario =
  sc_base :: real
  sc_low :: real
  sc_high :: real

record sim =
  sim_n :: "jsnum option"
  sim_targetBCR :: real
  sim_bcrMode :: string
  sim_seed :: "int option"
  sim_variationPct :: real
  sim_varyOutputs :: bool
  sim_varyTreatCosts :: bool
  sim_varyInputCosts :: bool

record model =
  m_time :: time
  m_outputs :: "output_item list"
  m_treatments :: "treatment list"
  m_benefits :: "benefit list"
  m_otherCosts :: "otherCost list"
  m_adoption :: scenario
  m_risk :: scenario
  m_sim :: sim

subsection \<open>Strings\<close>

text \<open>\<^verbatim>\<open>toUpperCase\<close> and \<^verbatim>\<open>toLowerCase\<close> on ASCII letters.\<close>

definition upper_char :: "char \<Rightarrow> char" where
  "upper_char c =
     (let k = (of_char c :: nat) in if 97 \<le> k \<and> k \<le> 122 then char_of (k - 32) else c)"

definition lower_char :: "char \<Rightarrow> char" where
  "lower_char c =
     (let k = (of_char c :: nat) in if 65 \<le> k \<and> k \<le> 90 then char_of (k + 32) else c)"

definition toUpperCase :: "string \<Rightarrow> string" where
  "toUpperCase s = map upper_char s"

definition toLowerCase :: "string \<Rightarrow> string" where
  "toLowerCase s = map lower_char s"

subsection \<open>Cash flows\<close>

text \<open>
  The annual amount of a benefit item, by category (the \<^verbatim>\<open>switch\<close> of
  \<^verbatim>\<open>additionalBenefitsSeries\<close>).
\<close>

definition benefit_amt :: "string \<Rightarrow> benefit \<Rightarrow> jsnum" where
  "benefit_amt cat b =
     (if cat = ''C1'' \<or> cat = ''C2'' \<or> cat = ''C3'' then
        num_or (b_unitValue b) 0
          * num_or (if cat = ''C3'' then b_abatement b else b_quantity b) 0
      else if cat = ''C4'' \<or> cat = ''C5'' \<or> cat = ''C8'' then num_or (b_annualAmount b) 0
      else if cat = ''C7'' then
        jmax (num_or (b_p0 b) 0 - num_or (b_p1 b) 0) (Num 0) * num_or (b_consequence b) 0
      else Num 0)"

definition addAnnual ::
  "nat \<Rightarrow> jsnum \<Rightarrow> jsnum \<Rightarrow> jsnum \<Rightarrow> int \<Rightarrow> jsnum \<Rightarrow> int \<Rightarrow> jsnum list \<Rightarrow> jsnum list" where
  "addAnnual N g A R yearIndex baseAmount tFromStart series =
     (let grown = baseAmount * jpow (Num 1 + g / Num 100) (nat tFromStart)
      in if 1 \<le> yearIndex \<and> yearIndex \<le> int N
         then add_at (nat yearIndex) (grown * A * R) series else series)"

definition addOnce ::
  "nat \<Rightarrow> int \<Rightarrow> jsnum \<Rightarrow> jsnum \<Rightarrow> int \<Rightarrow> jsnum \<Rightarrow> jsnum list \<Rightarrow> jsnum list" where
  "addOnce N baseYear A R absYear amount series =
     (let idx = absYear - baseYear + 1
      in if 0 \<le> idx \<and> idx \<le> int N then add_at (nat idx) (amount * A * R) series else series)"

text \<open>The body of \<^verbatim>\<open>model.benefits.forEach\<close>: one benefit item posted to the series.\<close>

definition benefit_item ::
  "nat \<Rightarrow> int \<Rightarrow> jsnum \<Rightarrow> jsnum \<Rightarrow> benefit \<Rightarrow> jsnum list \<Rightarrow> jsnum list" where
  "benefit_item N baseYear adoptMul risk b series =
     (let cat = toUpperCase (b_category b);
          A = (if b_linkAdoption b then clamp adoptMul (Num 0) (Num 1) else Num 1);
          R = (if b_linkRisk b then Num 1 - clamp risk (Num 0) (Num 1) else Num 1);
          g = num_or (b_growthPct b) 0;
          sy = year_or (b_startYear b) baseYear;
          ey = year_or (b_endYear b) sy;
          yr = year_or (b_year b) sy
      in if b_frequency b = ''Once'' \<or> cat = ''C6''
         then addOnce N baseYear A R yr (num_or (b_annualAmount b) 0) series
         else fold (\<lambda>y s. addAnnual N g A R (y - baseYear + 1) (benefit_amt cat b) (y - sy) s)
                [sy..ey] series)"

definition additionalBenefitsSeries ::
  "benefit list \<Rightarrow> nat \<Rightarrow> int \<Rightarrow> jsnum \<Rightarrow> jsnum \<Rightarrow> jsnum list" where
  "additionalBenefitsSeries benefits N baseYear adoptMul risk =
     fold (benefit_item N baseYear adoptMul risk) benefits (replicate (N + 1) (Num 0))"

text \<open>
  \<^verbatim>\<open>buildCashflows\<close>. Its callers in the engine pass \<^verbatim>\<open>adoptMul\<close> and \<^verbatim>\<open>risk\<close>
  explicitly; \<^verbatim>\<open>forRate\<close> is not read by the body.
\<close>

definition delta_of :: "treatment \<Rightarrow> output_item \<Rightarrow> jsnum" where
  "delta_of t o' = (case map_of (t_deltas t) (o_id o') of None \<Rightarrow> Num 0 | Some d \<Rightarrow> num_or d 0)"

definition valuePerHa :: "output_item list \<Rightarrow> treatment \<Rightarrow> jsnum" where
  "valuePerHa outs t =
     fold (\<lambda>o' acc. acc + delta_of t o' * number_or (o_value o') (Num 0)) outs (Num 0)"

definition annualCostPerHa :: "treatment \<Rightarrow> jsnum" where
  "annualCostPerHa t =
     number_or (t_materialsCost t) (Num 0) + number_or (t_servicesCost t) (Num 0)
       + number_or (t_labourCost t) (Num 0)"

record treat_totals =
  annualBenefit :: jsnum
  treatAnnualCost :: jsnum
  treatConstrAnnualCost :: jsnum
  treatCapitalY0 :: jsnum
  treatConstrCapitalY0 :: jsnum

text \<open>The body of \<^verbatim>\<open>model.treatments.forEach\<close>.\<close>

definition treatment_item ::
  "output_item list \<Rightarrow> jsnum \<Rightarrow> jsnum \<Rightarrow> treatment \<Rightarrow> treat_totals \<Rightarrow> treat_totals" where
  "treatment_item outs adoptMul risk t acc =
     (let adopt = clamp adoptMul (Num 0) (Num 1);
          area = num_or (t_area t) 0;
          benefit = valuePerHa outs t * area * (Num 1 - clamp risk (Num 0) (Num 1)) * adopt;
          opCost = annualCostPerHa t * area;
          cap = num_or (t_capitalCost t) 0
      in \<lparr> annualBenefit = annualBenefit acc + benefit,
           treatAnnualCost = treatAnnualCost acc + opCost,
           treatConstrAnnualCost =
             (if t_constrained t then treatConstrAnnualCost acc + opCost
              else treatConstrAnnualCost acc),
           treatCapitalY0 = treatCapitalY0 acc + cap,
           treatConstrCapitalY0 =
             (if t_constrained t then treatConstrCapitalY0 acc + cap
              else treatConstrCapitalY0 acc) \<rparr>)"

text \<open>\<^verbatim>\<open>for (let t = 1; t <= N; t++) arr[t] += x\<close>.\<close>

definition add_years :: "nat \<Rightarrow> jsnum \<Rightarrow> jsnum list \<Rightarrow> jsnum list" where
  "add_years N x arr = fold (\<lambda>t. add_at t x) [1..<N + 1] arr"

text \<open>\<^verbatim>\<open>for (let i = from; i <= N; i++) arr[i] += other[i]\<close>.\<close>

definition add_series :: "nat \<Rightarrow> nat \<Rightarrow> jsnum list \<Rightarrow> jsnum list \<Rightarrow> jsnum list" where
  "add_series from N other arr = fold (\<lambda>i. add_at i (other ! i)) [from..<N + 1] arr"

record other_totals =
  otherAnnualByYear :: "jsnum list"
  otherConstrAnnualByYear :: "jsnum list"
  otherCapitalY0 :: jsnum
  otherConstrCapitalY0 :: jsnum
  oc_costByYear :: "jsnum list"
  oc_constrainedCostByYear :: "jsnum list"

text \<open>The body of \<^verbatim>\<open>model.otherCosts.forEach\<close>.\<close>

definition otherCost_item :: "nat \<Rightarrow> int \<Rightarrow> otherCost \<Rightarrow> other_totals \<Rightarrow> other_totals" where
  "otherCost_item N baseYear c st =
     (if c_type c = ''annual'' then
        (let a = number_or (c_annual c) (Num 0);
             sy = year_or (c_startYear c) baseYear;
             ey = year_or (c_endYear c) sy
         in fold (\<lambda>y st'.
              (let idx = y - baseYear + 1
               in if 1 \<le> idx \<and> idx \<le> int N
                  then st'\<lparr> otherAnnualByYear := add_at (nat idx) a (otherAnnualByYear st'),
                           otherConstrAnnualByYear :=
                             (if c_constrained c
                              then add_at (nat idx) a (otherConstrAnnualByYear st')
                              else otherConstrAnnualByYear st') \<rparr>
                  else st')) [sy..ey] st)
      else if c_type c = ''capital'' then
        (let cap = number_or (c_capital c) (Num 0);
             cy = year_or (c_year c) baseYear;
             idx = cy - baseYear
         in if idx = 0
            then st\<lparr> otherCapitalY0 := otherCapitalY0 st + cap,
                     otherConstrCapitalY0 :=
                       (if c_constrained c then otherConstrCapitalY0 st + cap
                        else otherConstrCapitalY0 st) \<rparr>
            else if 0 < idx \<and> idx \<le> int N
            then st\<lparr> oc_costByYear := add_at (nat idx) cap (oc_costByYear st),
                     oc_constrainedCostByYear :=
                       (if c_constrained c then add_at (nat idx) cap (oc_constrainedCostByYear st)
                        else oc_constrainedCostByYear st) \<rparr>
            else st)
      else st)"

record cashflows =
  benefitByYear :: "jsnum list"
  costByYear :: "jsnum list"
  constrainedCostByYear :: "jsnum list"
  cf :: "jsnum list"
  annualGM :: jsnum

text \<open>
  The three arrays of \<^verbatim>\<open>buildCashflows\<close> are allocated with \<^verbatim>\<open>new Array(N + 1)\<close>, which
  throws unless the horizon \<open>N\<close> is an integer from -1 to \<open>2 ^ 32 - 2\<close>. With the
  horizon -1 the arrays are empty: no loop runs and no guarded write is made, and the two
  writes \<^verbatim>\<open>costByYear[0] += ...\<close> and \<^verbatim>\<open>constrainedCostByYear[0] += ...\<close> each create
  the element \<^verbatim>\<open>undefined + x\<close>, which is \<^verbatim>\<open>NaN\<close>. With a horizon from 0 on, every
  index written is within the arrays.
\<close>

definition buildCashflows :: "model \<Rightarrow> jsnum \<Rightarrow> jsnum \<Rightarrow> error + cashflows" where
  "buildCashflows m adoptMul risk =
     (case new_Array (tm_years (m_time m) + Num 1) of
        Inl e \<Rightarrow> Inl e
      | Inr len \<Rightarrow>
          (let baseYear = tm_startYear (m_time m);
               tt = fold (treatment_item (m_outputs m) adoptMul risk) (m_treatments m)
                      \<lparr> annualBenefit = Num 0, treatAnnualCost = Num 0,
                        treatConstrAnnualCost = Num 0, treatCapitalY0 = Num 0,
                        treatConstrCapitalY0 = Num 0 \<rparr>
           in if len = 0
              then Inr \<lparr> benefitByYear = [], costByYear = [NaN], constrainedCostByYear = [NaN],
                         cf = [], annualGM = annualBenefit tt - treatAnnualCost tt \<rparr>
              else
                (let N = len - 1;
                     zeros = replicate (N + 1) (Num 0);
                     benefit1 = add_years N (annualBenefit tt) zeros;
                     cost1 = add_years N (treatAnnualCost tt) (add_at 0 (treatCapitalY0 tt) zeros);
                     constr1 = add_years N (treatConstrAnnualCost tt)
                                 (add_at 0 (treatConstrCapitalY0 tt) zeros);
                     oc = fold (otherCost_item N baseYear) (m_otherCosts m)
                            \<lparr> otherAnnualByYear = zeros, otherConstrAnnualByYear = zeros,
                              otherCapitalY0 = Num 0, otherConstrCapitalY0 = Num 0,
                              oc_costByYear = cost1, oc_constrainedCostByYear = constr1 \<rparr>;
                     cost2 = add_series 1 N (otherAnnualByYear oc)
                               (add_at 0 (otherCapitalY0 oc) (oc_costByYear oc));
                     constr2 = add_series 1 N (otherConstrAnnualByYear oc)
                                 (add_at 0 (otherConstrCapitalY0 oc) (oc_constrainedCostByYear oc));
                     extra = additionalBenefitsSeries (m_benefits m) N baseYear adoptMul risk;
                     benefit2 = add_series 0 N extra benefit1
                 in Inr \<lparr> benefitByYear = benefit2,
                            costByYear = cost2,
                            constrainedCostByYear = constr2,
                            cf = map (\<lambda>i. benefit2 ! i - cost2 ! i) [0..<N + 1],
                            annualGM = annualBenefit tt - treatAnnualCost tt \<rparr>)))"

subsection \<open>Discounted metrics\<close>

definition presentValue :: "jsnum list \<Rightarrow> jsnum \<Rightarrow> jsnum" where
  "presentValue series ratePct =
     fold (\<lambda>t pv. pv + series ! t / jpow (Num 1 + ratePct / Num 100) t) [0..<length series] (Num 0)"

text \<open>
  \<^verbatim>\<open>irr\<close>. The two bounded \<^verbatim>\<open>for\<close> loops count their remaining iterations down: the
  expansion starts with 20, the bisection with 80. The variable \<^verbatim>\<open>nHi\<close> is not read
  after the expansion and is not carried through the bisection. The literals \<^verbatim>\<open>-0.99\<close>,
  \<^verbatim>\<open>1.5\<close> and \<^verbatim>\<open>1e-8\<close> are the fractions -(99/100), 3/2 and 1/100000000.
\<close>

definition npvAt :: "jsnum list \<Rightarrow> jsnum \<Rightarrow> jsnum" where
  "npvAt cfs r = fold (\<lambda>t acc. acc + cfs ! t / jpow (Num 1 + r) t) [0..<length cfs] (Num 0)"

fun irr_expand :: "jsnum list \<Rightarrow> jsnum \<Rightarrow> nat \<Rightarrow> jsnum \<Rightarrow> jsnum \<Rightarrow> jsnum \<times> jsnum" where
  "irr_expand cfs nLo 0 hi nHi = (hi, nHi)"
| "irr_expand cfs nLo (Suc k) hi nHi =
     (if jgt (nLo * nHi) (Num 0)
      then irr_expand cfs nLo k (hi * Num (3 / 2)) (npvAt cfs (hi * Num (3 / 2)))
      else (hi, nHi))"

fun irr_bisect :: "jsnum list \<Rightarrow> nat \<Rightarrow> jsnum \<Rightarrow> jsnum \<Rightarrow> jsnum \<Rightarrow> jsnum" where
  "irr_bisect cfs 0 lo hi nLo = ((lo + hi) / Num 2) * Num 100"
| "irr_bisect cfs (Suc i) lo hi nLo =
     (let mid = (lo + hi) / Num 2;
          nMid = npvAt cfs mid
      in if jlt (jabs nMid) (Num (1 / 100000000)) then mid * Num 100
         else if jle (nLo * nMid) (Num 0) then irr_bisect cfs i lo mid nLo
         else irr_bisect cfs i mid hi nMid)"

definition irr :: "jsnum list \<Rightarrow> jsnum" where
  "irr cfs =
     (let hasPos = list_ex (\<lambda>v. jgt v (Num 0)) cfs;
          hasNeg = list_ex (\<lambda>v. jlt v (Num 0)) cfs
      in if \<not> hasPos \<or> \<not> hasNeg then NaN
         else
           (let lo = Num (- (99 / 100));
                hi = Num 5;
                nLo = npvAt cfs lo;
                nHi = npvAt cfs hi
            in if jgt (nLo * nHi) (Num 0)
               then (case irr_expand cfs nLo 20 hi nHi of
                       (hi', nHi') \<Rightarrow>
                         if jgt (nLo * nHi') (Num 0) then NaN
                         else irr_bisect cfs 80 lo hi' nLo)
               else irr_bisect cfs 80 lo hi nLo))"

text \<open>
  \<^verbatim>\<open>mirr\<close>: \<open>n = cf.length - 1\<close>; the loop runs over every index of \<open>cf\<close>, with the
  body \<open>mirr_step\<close>.
\<close>

definition mirr_step ::
  "jsnum list \<Rightarrow> jsnum \<Rightarrow> jsnum \<Rightarrow> nat \<Rightarrow> jsnum \<times> jsnum \<Rightarrow> jsnum \<times> jsnum" where
  "mirr_step cfs fr rr t acc =
     (case acc of (pvNeg, fvPos) \<Rightarrow>
        (let v = cfs ! t
         in ((if jlt v (Num 0) then pvNeg + v / jpow (Num 1 + fr) t else pvNeg),
             (if jgt v (Num 0) then fvPos + v * jpow (Num 1 + rr) (length cfs - 1 - t)
              else fvPos))))"

definition mirr_sums :: "jsnum list \<Rightarrow> jsnum \<Rightarrow> jsnum \<Rightarrow> jsnum \<times> jsnum" where
  "mirr_sums cfs fr rr = fold (mirr_step cfs fr rr) [0..<length cfs] (Num 0, Num 0)"

definition mirr :: "jsnum list \<Rightarrow> jsnum \<Rightarrow> jsnum \<Rightarrow> jsnum" where
  "mirr cfs financeRatePct reinvestRatePct =
     (let fr = financeRatePct / Num 100;
          rr = reinvestRatePct / Num 100
      in case mirr_sums cfs fr rr of
           (pvNeg, fvPos) \<Rightarrow>
             if pvNeg = Num 0 then NaN
             else (jpow_recip (- fvPos / pvNeg) (length cfs - 1) - Num 1) * Num 100)"

text \<open>\<^verbatim>\<open>payback\<close>: the first index at which the discounted cumulative flow is not negative.\<close>

fun payback_from :: "jsnum list \<Rightarrow> jsnum \<Rightarrow> jsnum \<Rightarrow> nat \<Rightarrow> nat \<Rightarrow> nat option" where
  "payback_from cfs ratePct cum t 0 = None"
| "payback_from cfs ratePct cum t (Suc k) =
     (let cum' = cum + cfs ! t / jpow (Num 1 + ratePct / Num 100) t
      in if jge cum' (Num 0) then Some t else payback_from cfs ratePct cum' (Suc t) k)"

definition payback :: "jsnum list \<Rightarrow> jsnum \<Rightarrow> nat option" where
  "payback cfs ratePct = payback_from cfs ratePct (Num 0) 0 (length cfs)"

record metrics =
  pvBenefits :: jsnum
  pvCosts :: jsnum
  pvCostsConstrained :: jsnum
  npv :: jsnum
  bcr :: jsnum
  irrVal :: jsnum
  mirrVal :: jsnum
  roi :: jsnum
  r_annualGM :: jsnum
  profitMargin :: jsnum
  paybackYears :: "nat option"
  r_cf :: "jsnum list"
  r_benefitByYear :: "jsnum list"
  r_costByYear :: "jsnum list"

text \<open>
  \<^verbatim>\<open>computeAll\<close> throws what \<^verbatim>\<open>buildCashflows\<close> throws; nothing after it can throw.
\<close>

definition computeAll :: "model \<Rightarrow> jsnum \<Rightarrow> jsnum \<Rightarrow> jsnum \<Rightarrow> string \<Rightarrow> error + metrics" where
  "computeAll m rate adoptMul risk bcrMode =
     (case buildCashflows m adoptMul risk of
        Inl e \<Rightarrow> Inl e
      | Inr flows \<Rightarrow>
          (let pvB = presentValue (benefitByYear flows) rate;
               pvC = presentValue (costByYear flows) rate;
               pvCC = presentValue (constrainedCostByYear flows) rate;
               denom = (if bcrMode = ''constrained'' then pvCC else pvC)
           in Inr \<lparr> pvBenefits = pvB,
                      pvCosts = pvC,
                      pvCostsConstrained = pvCC,
                      npv = pvB - pvC,
                      bcr = (if jgt denom (Num 0) then pvB / denom else NaN),
                      irrVal = irr (cf flows),
                      mirrVal = mirr (cf flows) (Num (tm_mirrFinance (m_time m)))
                                  (Num (tm_mirrReinvest (m_time m))),
                      roi = (if jgt pvC (Num 0) then ((pvB - pvC) / pvC) * Num 100 else NaN),
                      r_annualGM = annualGM flows,
                      profitMargin =
                        (if 1 < length (benefitByYear flows) \<and> jgt (benefitByYear flows ! 1) (Num 0)
                         then (annualGM flows / (benefitByYear flows ! 1)) * Num 100 else NaN),
                      paybackYears = payback (cf flows) rate,
                      r_cf = cf flows,
                      r_benefitByYear = benefitByYear flows,
                      r_costByYear = costByYear flows \<rparr>))"

section \<open>The Monte Carlo simulator\<close>

subsection \<open>The seeded generator\<close>

text \<open>
  \<^verbatim>\<open>rng(seed)\<close>: the state \<open>t\<close> starts as
  \<^verbatim>\<open>(seed || Math.floor(Math.random() * 2 ** 31)) >>> 0\<close>. The seed is an integer or
  absent (\<^verbatim>\<open>null\<close>); \<open>rnd\<close> is the value \<^verbatim>\<open>Math.random()\<close> returns, the one source
  of non-determinism of the engine. Each call adds \<^verbatim>\<open>0x6d2b79f5\<close> to \<open>t\<close> (a number,
  not reduced) and mixes its low 32 bits.
\<close>

definition rng_init :: "int option \<Rightarrow> real \<Rightarrow> nat" where
  "rng_init seed rnd =
     (case seed of
        Some s \<Rightarrow> if s \<noteq> 0 then nat (s mod 2 ^ 32) else nat (\<lfloor>rnd * 2 ^ 31\<rfloor> mod 2 ^ 32)
      | None \<Rightarrow> nat (\<lfloor>rnd * 2 ^ 31\<rfloor> mod 2 ^ 32))"

definition imul :: "32 word \<Rightarrow> 32 word \<Rightarrow> 32 word" where
  "imul a b = a * b"

definition rng_next :: "nat \<Rightarrow> real \<times> nat" where
  "rng_next t =
     (let t' = t + 1831565813;
          x0 = (of_nat t' :: 32 word);
          x1 = imul (x0 XOR drop_bit 15 x0) (1 OR x0);
          x2 = x1 XOR (x1 + imul (x1 XOR drop_bit 7 x1) (61 OR x1))
      in (real (unat (x2 XOR drop_bit 14 x2)) / 4294967296, t'))"

definition triangular :: "jsnum \<Rightarrow> jsnum \<Rightarrow> jsnum \<Rightarrow> jsnum \<Rightarrow> jsnum" where
  "triangular r a c b =
     (let F = (c - a) / (b - a)
      in if jlt r F then a + jsqrt (r * (b - a) * (c - a))
         else b - jsqrt ((Num 1 - r) * (b - a) * (b - c)))"

subsection \<open>Summary statistics\<close>

record stats =
  st_min :: jsnum
  st_max :: jsnum
  st_mean :: jsnum
  st_median :: jsnum
  st_probPos :: jsnum

text \<open>\<^verbatim>\<open>arr.filter(v => isFinite(v))\<close>, as the reals it keeps.\<close>

fun finite_vals :: "jsnum list \<Rightarrow> real list" where
  "finite_vals [] = []"
| "finite_vals (Num a # xs) = a # finite_vals xs"
| "finite_vals (x # xs) = finite_vals xs"

definition summaryStats :: "jsnum list \<Rightarrow> stats" where
  "summaryStats arr =
     (let clean = sort (finite_vals arr)
      in if length clean = 0
         then \<lparr> st_min = NaN, st_max = NaN, st_mean = NaN, st_median = NaN, st_probPos = NaN \<rparr>
         else
           (let mid = length clean div 2
            in \<lparr> st_min = Num (clean ! 0),
                 st_max = Num (clean ! (length clean - 1)),
                 st_mean = Num (foldl (+) 0 clean / real (length clean)),
                 st_median =
                   (if length clean mod 2 = 0 then Num ((clean ! (mid - 1) + clean ! mid) / 2)
                    else Num (clean ! mid)),
                 st_probPos =
                   Num (real (length (filter (\<lambda>v. 0 < v) clean)) / real (length clean)) \<rparr>))"

text \<open>
  \<^verbatim>\<open>bcrs.filter(v => isFinite(v) && v > x).length / bcrs.length || 0\<close>, for the
  thresholds 1 and \<^verbatim>\<open>Number(model.sim.targetBCR) || 0\<close>.
\<close>

definition probBcrGt :: "jsnum \<Rightarrow> jsnum list \<Rightarrow> jsnum" where
  "probBcrGt x bcrs =
     jor (Num (real (length (filter (\<lambda>v. isFinite v \<and> jgt v x) bcrs))) / Num (real (length bcrs)))
       (Num 0)"

subsection \<open>The simulation run\<close>

record sim_record =
  rec_discountRatePct :: jsnum
  rec_adoptionMultiplier :: jsnum
  rec_riskMultiplier :: jsnum
  rec_npv :: jsnum
  rec_bcr :: jsnum

record treat_base =
  tb_materials :: jsnum
  tb_services :: jsnum
  tb_labour :: jsnum

record other_base =
  ob_annual :: jsnum
  ob_capital :: jsnum

text \<open>The three snapshots taken before the loop: each field as \<^verbatim>\<open>Number(x) || 0\<close>.\<close>

definition baseOutValues :: "model \<Rightarrow> jsnum list" where
  "baseOutValues m = map (\<lambda>o'. number_or (o_value o') (Num 0)) (m_outputs m)"

definition baseTreatCosts :: "model \<Rightarrow> treat_base list" where
  "baseTreatCosts m =
     map (\<lambda>t. \<lparr> tb_materials = number_or (t_materialsCost t) (Num 0),
                tb_services = number_or (t_servicesCost t) (Num 0),
                tb_labour = number_or (t_labourCost t) (Num 0) \<rparr>) (m_treatments m)"

definition baseOtherCosts :: "model \<Rightarrow> other_base list" where
  "baseOtherCosts m =
     map (\<lambda>c. \<lparr> ob_annual = number_or (c_annual c) (Num 0),
                ob_capital = number_or (c_capital c) (Num 0) \<rparr>) (m_otherCosts m)"

text \<open>
  Writing snapshot values times a shock back by index (the three \<^verbatim>\<open>forEach((x, idx) => ...)\<close>
  of the loop body; with the shock left out, the three of the restore). The value written
  is a number.
\<close>

definition set_outputs :: "jsnum list \<Rightarrow> real \<Rightarrow> output_item list \<Rightarrow> output_item list" where
  "set_outputs bases shock outs =
     map (\<lambda>(o', b). o'\<lparr> o_value := JsNum (b * Num shock) \<rparr>) (zip outs bases)"

definition set_treatCosts :: "treat_base list \<Rightarrow> real \<Rightarrow> treatment list \<Rightarrow> treatment list" where
  "set_treatCosts bases shock ts =
     map (\<lambda>(t, b). t\<lparr> t_materialsCost := JsNum (tb_materials b * Num shock),
                      t_servicesCost := JsNum (tb_services b * Num shock),
                      t_labourCost := JsNum (tb_labour b * Num shock) \<rparr>) (zip ts bases)"

definition set_otherCosts :: "other_base list \<Rightarrow> real \<Rightarrow> otherCost list \<Rightarrow> otherCost list" where
  "set_otherCosts bases shock cs =
     map (\<lambda>(c, b). c\<lparr> c_annual := JsNum (ob_annual b * Num shock),
                      c_capital := JsNum (ob_capital b * Num shock) \<rparr>) (zip cs bases)"

definition restore_outputs :: "jsnum list \<Rightarrow> output_item list \<Rightarrow> output_item list" where
  "restore_outputs bases outs = map (\<lambda>(o', b). o'\<lparr> o_value := JsNum b \<rparr>) (zip outs bases)"

definition restore_treatCosts :: "treat_base list \<Rightarrow> treatment list \<Rightarrow> treatment list" where
  "restore_treatCosts bases ts =
     map (\<lambda>(t, b). t\<lparr> t_materialsCost := JsNum (tb_materials b),
                      t_servicesCost := JsNum (tb_services b),
                      t_labourCost := JsNum (tb_labour b) \<rparr>) (zip ts bases)"

definition restore_otherCosts :: "other_base list \<Rightarrow> otherCost list \<Rightarrow> otherCost list" where
  "restore_otherCosts bases cs =
     map (\<lambda>(c, b). c\<lparr> c_annual := JsNum (ob_annual b), c_capital := JsNum (ob_capital b) \<rparr>)
       (zip cs bases)"

text \<open>
  A shock factor: \<^verbatim>\<open>flag ? 1 + (rand() * 2 * varPct - varPct) : 1\<close>; the generator is
  advanced only when the flag is set.
\<close>

definition shock :: "bool \<Rightarrow> real \<Rightarrow> nat \<Rightarrow> real \<times> nat" where
  "shock flag varPct t =
     (if flag then (case rng_next t of (r, t') \<Rightarrow> (1 + (r * 2 * varPct - varPct), t'))
      else (1, t))"

text \<open>
  One iteration of the loop: the model and the generator state go in and come out, with
  the record of the iteration. When \<^verbatim>\<open>computeAll\<close> throws, the iteration ends there: the
  exception comes out with the model as the shocks have left it (the source has no
  handler, and the restore after the loop is not reached).
\<close>

definition sim_iter ::
  "jsnum list \<Rightarrow> treat_base list \<Rightarrow> other_base list \<Rightarrow> real \<Rightarrow> model \<times> nat
     \<Rightarrow> (error \<times> model) + ((model \<times> nat) \<times> sim_record)" where
  "sim_iter bOut bTreat bOther varPct st =
     (case st of (m, t0) \<Rightarrow>
      case rng_next t0 of (r1, t1) \<Rightarrow>
      case rng_next t1 of (r2, t2) \<Rightarrow>
      case rng_next t2 of (r3, t3) \<Rightarrow>
      (let disc = triangular (Num r1) (Num (tm_discLow (m_time m))) (Num (tm_discBase (m_time m)))
                    (Num (tm_discHigh (m_time m)));
           adoptMul = clamp (triangular (Num r2) (Num (sc_low (m_adoption m)))
                        (Num (sc_base (m_adoption m))) (Num (sc_high (m_adoption m))))
                        (Num 0) (Num 1);
           risk = clamp (triangular (Num r3) (Num (sc_low (m_risk m)))
                    (Num (sc_base (m_risk m))) (Num (sc_high (m_risk m))))
                    (Num 0) (Num 1)
       in case shock (sim_varyOutputs (m_sim m)) varPct t3 of (shockOutputs, t4) \<Rightarrow>
          case shock (sim_varyTreatCosts (m_sim m)) varPct t4 of (shockTreatCosts, t5) \<Rightarrow>
          case shock (sim_varyInputCosts (m_sim m)) varPct t5 of (shockInputCosts, t6) \<Rightarrow>
          (let m1 = (if sim_varyOutputs (m_sim m)
                     then m\<lparr> m_outputs := set_outputs bOut shockOutputs (m_outputs m) \<rparr> else m);
               m2 = (if sim_varyTreatCosts (m_sim m)
                     then m1\<lparr> m_treatments := set_treatCosts bTreat shockTreatCosts (m_treatments m1) \<rparr>
                     else m1);
               m3 = (if sim_varyInputCosts (m_sim m)
                     then m2\<lparr> m_otherCosts := set_otherCosts bOther shockInputCosts (m_otherCosts m2) \<rparr>
                     else m2)
           in case computeAll m3 disc adoptMul risk (sim_bcrMode (m_sim m)) of
                Inl e \<Rightarrow> Inl (e, m3)
              | Inr all \<Rightarrow>
                  Inr ((m3, t6),
                       \<lparr> rec_discountRatePct = disc, rec_adoptionMultiplier = adoptMul,
                         rec_riskMultiplier = risk,
                         rec_npv = npv all, rec_bcr = bcr all \<rparr>))))"

text \<open>
  \<^verbatim>\<open>for (let i = 0; i < N; i++)\<close>, counting the remaining iterations down; an
  exception ends the loop.
\<close>

fun sim_loop ::
  "jsnum list \<Rightarrow> treat_base list \<Rightarrow> other_base list \<Rightarrow> real \<Rightarrow> nat \<Rightarrow> model \<times> nat
     \<Rightarrow> sim_record list \<Rightarrow> (error \<times> model) + ((model \<times> nat) \<times> sim_record list)" where
  "sim_loop bOut bTreat bOther varPct 0 st details = Inr (st, details)"
| "sim_loop bOut bTreat bOther varPct (Suc k) st details =
     (case sim_iter bOut bTreat bOther varPct st of
        Inl thrown \<Rightarrow> Inl thrown
      | Inr (st', r) \<Rightarrow> sim_loop bOut bTreat bOther varPct k st' (details @ [r]))"

text \<open>
  The run count \<^verbatim>\<open>Math.max(100, Number(model.sim.n) || 1000)\<close>; \<^verbatim>\<open>model.sim.n\<close> is a
  number or is missing (\<open>None\<close>, for which \<^verbatim>\<open>Number\<close> gives \<^verbatim>\<open>NaN\<close>).
\<close>

definition runCount :: "jsnum option \<Rightarrow> jsnum" where
  "runCount n = jmax (Num 100) (jor (case n of None \<Rightarrow> NaN | Some x \<Rightarrow> x) (Num 1000))"

record sim_result =
  res_model :: model
  res_details :: "sim_record list"
  res_npvStats :: stats
  res_bcrStats :: stats
  res_probBcrGt1 :: jsnum
  res_probBcrGtTarget :: jsnum

text \<open>
  \<^verbatim>\<open>runSimulation\<close>, from the model before the run and the value \<open>rnd\<close> of
  \<^verbatim>\<open>Math.random()\<close> to the exception it throws, with the model the throw leaves, or to
  the model after the run, the simulation records and the summaries it displays. The
  arrays \<^verbatim>\<open>npvs\<close> and \<^verbatim>\<open>bcrs\<close> are allocated with \<^verbatim>\<open>new Array(N)\<close> before anything is
  written to the model; they hold the \<^verbatim>\<open>npv\<close> and \<^verbatim>\<open>bcr\<close> of the records.
\<close>

definition runSimulation :: "model \<Rightarrow> real \<Rightarrow> (error \<times> model) + sim_result" where
  "runSimulation m rnd =
     (case new_Array (runCount (sim_n (m_sim m))) of
        Inl e \<Rightarrow> Inl (e, m)
      | Inr N \<Rightarrow>
          (let t0 = rng_init (sim_seed (m_sim m)) rnd;
               varPct = val_or (sim_variationPct (m_sim m)) 0 / 100;
               bOut = baseOutValues m;
               bTreat = baseTreatCosts m;
               bOther = baseOtherCosts m
           in case sim_loop bOut bTreat bOther varPct N (m, t0) [] of
                Inl thrown \<Rightarrow> Inl thrown
              | Inr ((m', t'), details) \<Rightarrow>
                  (let restored =
                         m'\<lparr> m_outputs := restore_outputs bOut (m_outputs m'),
                             m_treatments := restore_treatCosts bTreat (m_treatments m'),
                             m_otherCosts := restore_otherCosts bOther (m_otherCosts m') \<rparr>;
                       npvs = map rec_npv details;
                       bcrs = map rec_bcr details
                   in Inr \<lparr> res_model = restored,
                            res_details = details,
                            res_npvStats = summaryStats npvs,
                            res_bcrStats = summaryStats bcrs,
                            res_probBcrGt1 = probBcrGt (Num 1) bcrs,
                            res_probBcrGtTarget =
                              probBcrGt (num_or (sim_targetBCR (m_sim m)) 0) bcrs \<rparr>)))"

section \<open>The trial-data application: aggregation and comparison against the control\<close>

text \<open>
  The first application of \<^verbatim>\<open>src/app.js\<close> reads a table (\<^verbatim>\<open>state.headers\<close>,
  \<^verbatim>\<open>state.rows\<close>), aggregates it per treatment, decides the control and ranks the
  treatments. A row maps a header to the text of its cell. The conversion \<^verbatim>\<open>Number\<close> of
  a text to a number is a built-in of the language and a parameter \<open>numberOf\<close> here.
\<close>

type_synonym row = "(string \<times> string) list"

text \<open>
  A text is a list of characters with the codes 0 to 255. \<^verbatim>\<open>trim\<close> strips the white
  space and the line terminators of the language; those with a code up to 255 are tab,
  line feed, vertical tab, form feed, carriage return, space and the no-break space.
  \<^verbatim>\<open>includes\<close> is the test for a substring.
\<close>

definition is_space :: "char \<Rightarrow> bool" where
  "is_space c = ((of_char c :: nat) \<in> {9, 10, 11, 12, 13, 32, 160})"

definition trim :: "string \<Rightarrow> string" where
  "trim s = rev (dropWhile is_space (rev (dropWhile is_space s)))"

fun str_includes :: "string \<Rightarrow> string \<Rightarrow> bool" where
  "str_includes [] sub = (sub = [])"
| "str_includes (c # cs) sub = (take (length sub) (c # cs) = sub \<or> str_includes cs sub)"

definition parseNumber :: "(string \<Rightarrow> jsnum) \<Rightarrow> string option \<Rightarrow> jsnum" where
  "parseNumber numberOf v =
     (case v of
        None \<Rightarrow> NaN
      | Some txt \<Rightarrow>
          (let trimmed = trim txt
           in if trimmed = [] then NaN
              else (let num = numberOf (filter (\<lambda>c. c \<noteq> CHR '','') trimmed)
                    in if isFinite num then num else NaN)))"

definition parseBoolean :: "string option \<Rightarrow> bool" where
  "parseBoolean v =
     (case v of
        None \<Rightarrow> False
      | Some txt \<Rightarrow>
          (let s = toLowerCase (trim txt)
           in s = ''true'' \<or> s = ''1'' \<or> s = ''yes'' \<or> s = ''y''))"

definition discountFactorSum :: "jsnum \<Rightarrow> int \<Rightarrow> jsnum" where
  "discountFactorSum discountRatePct years =
     (let r = discountRatePct / Num 100
      in if years \<le> 0 then Num 0
         else if r = Num 0 then Num (real_of_int years)
         else fold (\<lambda>t acc. acc + Num 1 / jpow (Num 1 + r) t) [1..<nat years + 1] (Num 0))"

text \<open>\<^verbatim>\<open>meanIgnoringNaN\<close> of the parsed values an aggregate has kept (all finite).\<close>

definition meanIgnoringNaN :: "real list \<Rightarrow> jsnum" where
  "meanIgnoringNaN vals =
     (if length vals = 0 then NaN else Num (foldl (+) 0 vals / real (length vals)))"

text \<open>\<^verbatim>\<open>detectColumnMap\<close>: the first alias that is a header, compared in lower case.\<close>

fun findCol :: "string list \<Rightarrow> string list \<Rightarrow> string option" where
  "findCol headers [] = None"
| "findCol headers (alias # aliases) =
     (case find (\<lambda>h. toLowerCase h = toLowerCase alias) headers of
        Some h \<Rightarrow> Some h
      | None \<Rightarrow> findCol headers aliases)"

record columnMap =
  col_treatmentName :: "string option"
  col_isControl :: "string option"
  col_yield :: "string option"
  col_variableCost :: "string option"
  col_capitalCost :: "string option"

definition detectColumnMap :: "string list \<Rightarrow> columnMap" where
  "detectColumnMap headers =
     \<lparr> col_treatmentName = findCol headers [''treatment_name'', ''amendment_name'', ''treatment''],
       col_isControl = findCol headers [''is_control'', ''control_flag'', ''control''],
       col_yield = findCol headers [''yield_t_ha'', ''yield'', ''yield_t/ha''],
       col_variableCost =
         findCol headers [''total_cost_per_ha'', ''variable_cost_per_ha'', ''total_cost_per_ha_raw''],
       col_capitalCost = findCol headers [''capital_cost_per_ha'', ''cost_amendment_input_per_ha''] \<rparr>"

text \<open>The cell of a row under a column of the map (\<^verbatim>\<open>undefined\<close> is \<open>None\<close>).\<close>

definition cell :: "row \<Rightarrow> string option \<Rightarrow> string option" where
  "cell r col = (case col of None \<Rightarrow> None | Some h \<Rightarrow> map_of r h)"

record summary =
  s_yields :: "real list"
  s_variableCosts :: "real list"
  s_capitalCosts :: "real list"
  s_isControlFlagged :: bool

text \<open>
  The \<^verbatim>\<open>Map\<close> \<^verbatim>\<open>summaryByName\<close> keeps its keys in the order of their first insertion: an
  association list, new keys appended.
\<close>

definition get_summary :: "(string \<times> summary) list \<Rightarrow> string \<Rightarrow> summary" where
  "get_summary tbl name =
     (case map_of tbl name of
        Some sm \<Rightarrow> sm
      | None \<Rightarrow> \<lparr> s_yields = [], s_variableCosts = [], s_capitalCosts = [],
                   s_isControlFlagged = False \<rparr>)"

definition put_summary :: "(string \<times> summary) list \<Rightarrow> string \<Rightarrow> summary \<Rightarrow> (string \<times> summary) list" where
  "put_summary tbl name sm =
     (if name \<in> set (map fst tbl) then map (\<lambda>(k, v). if k = name then (k, sm) else (k, v)) tbl
      else tbl @ [(name, sm)])"

definition push_num :: "jsnum \<Rightarrow> real list \<Rightarrow> real list" where
  "push_num x vals = (case x of Num a \<Rightarrow> vals @ [a] | _ \<Rightarrow> vals)"

text \<open>A row flags its treatment as the control: there is a control column and its cell parses as true.\<close>

definition flags_control :: "columnMap \<Rightarrow> row \<Rightarrow> bool" where
  "flags_control cm r \<longleftrightarrow> col_isControl cm \<noteq> None \<and> parseBoolean (cell r (col_isControl cm))"

text \<open>
  The treatment a row names: \<^verbatim>\<open>tNameRaw ? String(tNameRaw).trim() : ""\<close>, the empty text
  without a treatment column or with an empty cell.
\<close>

definition treatmentName :: "columnMap \<Rightarrow> row \<Rightarrow> string" where
  "treatmentName cm r = (case cell r (col_treatmentName cm) of None \<Rightarrow> [] | Some raw \<Rightarrow> trim raw)"

text \<open>The body of the loop over the rows of \<^verbatim>\<open>aggregateTreatments\<close>.\<close>

definition aggregate_row ::
  "(string \<Rightarrow> jsnum) \<Rightarrow> columnMap \<Rightarrow> row
     \<Rightarrow> (string \<times> summary) list \<times> string option \<Rightarrow> (string \<times> summary) list \<times> string option" where
  "aggregate_row numberOf cm r st =
     (case st of (tbl, controlNameFromFlag) \<Rightarrow>
      (let name = treatmentName cm r
       in if name = [] then st
          else
            (let t = get_summary tbl name;
                 isCtrl = flags_control cm r;
                 t' = \<lparr> s_yields =
                          (if col_yield cm \<noteq> None
                           then push_num (parseNumber numberOf (cell r (col_yield cm))) (s_yields t)
                           else s_yields t),
                        s_variableCosts =
                          (if col_variableCost cm \<noteq> None
                           then push_num (parseNumber numberOf (cell r (col_variableCost cm)))
                                  (s_variableCosts t)
                           else s_variableCosts t),
                        s_capitalCosts =
                          (if col_capitalCost cm \<noteq> None
                           then push_num (parseNumber numberOf (cell r (col_capitalCost cm)))
                                  (s_capitalCosts t)
                           else s_capitalCosts t),
                        s_isControlFlagged = (s_isControlFlagged t \<or> isCtrl) \<rparr>
             in (put_summary tbl name t',
                 if isCtrl then Some name else controlNameFromFlag))))"

text \<open>
  The decision of the control: the flagged name, else the first name that contains
  \<^verbatim>\<open>control\<close>, else the first name.
\<close>

definition decide_control :: "string list \<Rightarrow> string option \<Rightarrow> string option" where
  "decide_control names controlNameFromFlag =
     (case controlNameFromFlag of
        Some name \<Rightarrow> Some name
      | None \<Rightarrow>
          (case find (\<lambda>name. str_includes (toLowerCase name) ''control'') names of
             Some name \<Rightarrow> Some name
           | None \<Rightarrow> (case names of [] \<Rightarrow> None | name # _ \<Rightarrow> Some name)))"

record trial_treatment =
  tt_name :: string
  tt_isControl :: bool
  tt_avgYield :: jsnum
  tt_avgVarCost :: jsnum
  tt_avgCapCost :: jsnum

record aggregated =
  ag_controlName :: "string option"
  ag_treatments :: "trial_treatment list"

text \<open>
  \<^verbatim>\<open>aggregateTreatments\<close>, from the control and the treatments the state holds
  (\<open>prev\<close>; on a fresh state no control and no treatments) to those it holds afterwards:
  without headers or rows the function returns at once and the state is left as it is.
\<close>

definition fresh :: aggregated where
  "fresh = \<lparr> ag_controlName = None, ag_treatments = [] \<rparr>"

definition aggregateTreatments ::
  "(string \<Rightarrow> jsnum) \<Rightarrow> string list \<Rightarrow> row list \<Rightarrow> aggregated \<Rightarrow> aggregated" where
  "aggregateTreatments numberOf headers rows prev =
     (if length headers = 0 \<or> length rows = 0 then prev
      else
        (case fold (aggregate_row numberOf (detectColumnMap headers)) rows ([], None) of
           (tbl, controlNameFromFlag) \<Rightarrow>
             (let controlName = decide_control (map fst tbl) controlNameFromFlag
              in \<lparr> ag_controlName = controlName,
                   ag_treatments =
                     map (\<lambda>(name, t).
                            \<lparr> tt_name = name,
                              tt_isControl = (Some name = controlName),
                              tt_avgYield = meanIgnoringNaN (s_yields t),
                              tt_avgVarCost = meanIgnoringNaN (s_variableCosts t),
                              tt_avgCapCost =
                                (if meanIgnoringNaN (s_capitalCosts t) = NaN then Num 0
                                 else meanIgnoringNaN (s_capitalCosts t)) \<rparr>) tbl \<rparr>)))"

record params =
  pricePerTonne :: real
  p_years :: int
  persistenceYears :: int
  discountRate :: real

record cba_result =
  cr_name :: string
  cr_isControl :: bool
  cr_pvBenefits :: jsnum
  cr_pvTotalCosts :: jsnum
  cr_npv :: jsnum
  cr_bcr :: jsnum
  cr_roi :: jsnum
  cr_deltaPvBenefits :: jsnum
  cr_deltaPvCosts :: jsnum
  cr_deltaNpv :: jsnum
  cr_rank :: nat

text \<open>\<^verbatim>\<open>parseNumber\<close> of a number: a value that is not finite becomes \<^verbatim>\<open>NaN\<close>.\<close>

definition finiteOrNaN :: "jsnum \<Rightarrow> jsnum" where
  "finiteOrNaN x = (if isFinite x then x else NaN)"

text \<open>The metrics of one treatment (the body of the first loop of \<^verbatim>\<open>computeCBA\<close>).\<close>

definition cba_metrics ::
  "string \<Rightarrow> jsnum \<Rightarrow> jsnum \<Rightarrow> jsnum \<Rightarrow> trial_treatment \<Rightarrow> cba_result" where
  "cba_metrics controlName price factorBenefits factorCosts t =
     (let avgYield = finiteOrNaN (tt_avgYield t);
          avgVarCost = finiteOrNaN (tt_avgVarCost t);
          avgCapCost = finiteOrNaN (tt_avgCapCost t);
          pvB = (if avgYield = NaN then NaN else avgYield * price * factorBenefits);
          pvVarCosts = (if avgVarCost = NaN then NaN else avgVarCost * factorCosts);
          pvCapCosts = (if avgCapCost = NaN then Num 0 else avgCapCost);
          pvTotal = (if pvVarCosts = NaN \<and> pvCapCosts = NaN then NaN
                     else (if pvVarCosts = NaN then Num 0 else pvVarCosts) + pvCapCosts);
          npv' = (if pvB = NaN \<or> pvTotal = NaN then NaN else pvB - pvTotal)
      in \<lparr> cr_name = tt_name t,
           cr_isControl = (tt_name t = controlName),
           cr_pvBenefits = pvB,
           cr_pvTotalCosts = pvTotal,
           cr_npv = npv',
           cr_bcr = (if pvB \<noteq> NaN \<and> jgt pvTotal (Num 0) then pvB / pvTotal else NaN),
           cr_roi = (if npv' \<noteq> NaN \<and> jgt pvTotal (Num 0) then (npv' / pvTotal) * Num 100 else NaN),
           cr_deltaPvBenefits = Num 0,
           cr_deltaPvCosts = Num 0,
           cr_deltaNpv = Num 0,
           cr_rank = 0 \<rparr>)"

text \<open>
  The sort by descending net present value, \<^verbatim>\<open>NaN\<close> counted as \<^verbatim>\<open>-Infinity\<close>. The
  comparator \<^verbatim>\<open>bVal - aVal\<close> is consistent and the sort of the language is stable: the
  result is that of a stable insertion sort.
\<close>

definition sort_key :: "cba_result \<Rightarrow> jsnum" where
  "sort_key r = (if cr_npv r = NaN then NInf else cr_npv r)"

fun insert_desc :: "cba_result \<Rightarrow> cba_result list \<Rightarrow> cba_result list" where
  "insert_desc r [] = [r]"
| "insert_desc r (x # xs) =
     (if jlt (sort_key r) (sort_key x) then x # insert_desc r xs else r # x # xs)"

definition sort_desc :: "cba_result list \<Rightarrow> cba_result list" where
  "sort_desc rs = foldr insert_desc rs []"

text \<open>\<^verbatim>\<open>results.find(r => r.isControl) || results[0]\<close>, on a list that is not empty.\<close>

definition control_result :: "cba_result list \<Rightarrow> cba_result" where
  "control_result rs = (case find cr_isControl rs of Some r \<Rightarrow> r | None \<Rightarrow> hd rs)"

text \<open>The differences against the control, and the ranks \<^verbatim>\<open>idx + 1\<close> after the sort.\<close>

definition with_delta :: "cba_result \<Rightarrow> cba_result \<Rightarrow> cba_result" where
  "with_delta c r =
     r\<lparr> cr_deltaPvBenefits := cr_pvBenefits r - cr_pvBenefits c,
        cr_deltaPvCosts := cr_pvTotalCosts r - cr_pvTotalCosts c,
        cr_deltaNpv := cr_npv r - cr_npv c \<rparr>"

definition assign_ranks :: "cba_result list \<Rightarrow> cba_result list" where
  "assign_ranks rs = map (\<lambda>(r, idx). r\<lparr> cr_rank := idx + 1 \<rparr>) (zip rs [0..<length rs])"

record cba_results =
  rs_treatments :: "cba_result list"
  rs_control :: cba_result

text \<open>
  \<^verbatim>\<open>computeCBA\<close>: \<open>None\<close> is the early \<^verbatim>\<open>return\<close> that leaves \<^verbatim>\<open>state.results\<close>
  as it is. The result objects are updated in place, so \<^verbatim>\<open>state.results.control\<close> is
  the control's result with its differences and its rank: the result of that name in the
  ranked list (the names of the treatments are the keys of a \<^verbatim>\<open>Map\<close>, hence distinct).
\<close>

definition computeCBA :: "aggregated \<Rightarrow> params \<Rightarrow> cba_results option" where
  "computeCBA ag ps =
     (case ag_controlName ag of
        None \<Rightarrow> None
      | Some controlName \<Rightarrow>
          if length (ag_treatments ag) = 0 \<or> controlName = [] then None
          else
            (let price = num_or (pricePerTonne ps) 0;
                 years = max 1 (year_or (p_years ps) 1);
                 persistence = max 1 (min years (year_or (persistenceYears ps) years));
                 rate = Num (discountRate ps);
                 factorBenefits = discountFactorSum rate persistence;
                 factorCosts = discountFactorSum rate years;
                 results = map (cba_metrics controlName price factorBenefits factorCosts)
                             (ag_treatments ag);
                 controlRes = control_result results;
                 ranked = assign_ranks (sort_desc (map (with_delta controlRes) results))
             in Some \<lparr> rs_treatments = ranked,
                       rs_control =
                         (case find (\<lambda>r. cr_name r = cr_name controlRes) ranked of
                            Some c \<Rightarrow> c | None \<Rightarrow> controlRes) \<rparr>))"

text \<open>The evaluation of a loaded table: \<^verbatim>\<open>aggregateTreatments(); computeCBA();\<close>.\<close>

definition evaluateTrial ::
  "(string \<Rightarrow> jsnum) \<Rightarrow> string list \<Rightarrow> row list \<Rightarrow> params \<Rightarrow> aggregated
     \<Rightarrow> cba_results option" where
  "evaluateTrial numberOf headers rows ps prev =
     computeCBA (aggregateTreatments numberOf headers rows prev) ps"

section \<open>Concrete models\<close>

text \<open>
  One treatment of 1 ha with a per-hectare output value of 100 (a yield gain of 2 units
  worth 50 each), per-hectare costs of 10 + 10 + 20, no capital cost, no other benefit or
  cost item, over one year. The argument is the flag \<^verbatim>\<open>constrained\<close> of the treatment.
\<close>

definition scenario_model :: "bool \<Rightarrow> model" where
  "scenario_model c =
     \<lparr> m_time = \<lparr> tm_years = Num 1, tm_startYear = 2025, tm_discBase = 7, tm_discLow = 4,
                  tm_discHigh = 10, tm_mirrFinance = 6, tm_mirrReinvest = 4 \<rparr>,
       m_outputs = [\<lparr> o_id = ''yield'', o_value = JsNum (Num 50) \<rparr>],
       m_treatments =
         [\<lparr> t_area = 1, t_deltas = [(''yield'', 2)], t_materialsCost = JsNum (Num 10),
            t_servicesCost = JsNum (Num 10), t_labourCost = JsNum (Num 20), t_capitalCost = 0,
            t_constrained = c \<rparr>],
       m_benefits = [],
       m_otherCosts = [],
       m_adoption = \<lparr> sc_base = 1, sc_low = 1, sc_high = 1 \<rparr>,
       m_risk = \<lparr> sc_base = 0, sc_low = 0, sc_high = 0 \<rparr>,
       m_sim = \<lparr> sim_n = Some (Num 1000), sim_targetBCR = 2, sim_bcrMode = ''all'', sim_seed = None,
                 sim_variationPct = 20, sim_varyOutputs = True, sim_varyTreatCosts = True,
                 sim_varyInputCosts = False \<rparr> \<rparr>"

text \<open>
  Two treatments of 1 ha: a constrained one with an output value of 50 and a cost of 10,
  and an unconstrained one with no output and a cost of 90.
\<close>

definition mixed_model :: model where
  "mixed_model =
     (scenario_model True)\<lparr> m_treatments :=
         [\<lparr> t_area = 1, t_deltas = [(''yield'', 1)], t_materialsCost = JsNum (Num 10),
            t_servicesCost = JsNum (Num 0), t_labourCost = JsNum (Num 0), t_capitalCost = 0,
            t_constrained = True \<rparr>,
          \<lparr> t_area = 1, t_deltas = [], t_materialsCost = JsNum (Num 90),
            t_servicesCost = JsNum (Num 0), t_labourCost = JsNum (Num 0), t_capitalCost = 0,
            t_constrained = False \<rparr>] \<rparr>"


text \<open>The scenario model with the seed 0 typed into the seed field.\<close>

definition seed_zero_model :: model where
  "seed_zero_model = (scenario_model True)\<lparr> m_sim := (m_sim (scenario_model True))\<lparr> sim_seed := Some 0 \<rparr> \<rparr>"


text \<open>The scenario model with the run count \<open>n\<close>; \<open>None\<close> is a missing count.\<close>

definition runs_model :: "jsnum option \<Rightarrow> model" where
  "runs_model n = (scenario_model True)\<lparr> m_sim := (m_sim (scenario_model True))\<lparr> sim_n := n \<rparr> \<rparr>"

section \<open>What a simulation run may change\<close>

text \<open>
  Two models have the same frame when they differ at most in the values the simulator
  perturbs: the value of an output, the three per-hectare costs of a treatment, and the
  annual and capital amount of an other-cost item.
\<close>

definition same_frame :: "model \<Rightarrow> model \<Rightarrow> bool" where
  "same_frame m m' \<longleftrightarrow>
     m_time m' = m_time m \<and> m_benefits m' = m_benefits m \<and> m_adoption m' = m_adoption m \<and>
     m_risk m' = m_risk m \<and> m_sim m' = m_sim m \<and> model.more m' = model.more m \<and>
     map (\<lambda>o'. o'\<lparr> o_value := NegZero \<rparr>) (m_outputs m')
       = map (\<lambda>o'. o'\<lparr> o_value := NegZero \<rparr>) (m_outputs m) \<and>
     map (\<lambda>t. t\<lparr> t_materialsCost := NegZero, t_servicesCost := NegZero, t_labourCost := NegZero \<rparr>)
         (m_treatments m')
       = map (\<lambda>t. t\<lparr> t_materialsCost := NegZero, t_servicesCost := NegZero, t_labourCost := NegZero \<rparr>)
           (m_treatments m) \<and>
     map (\<lambda>c. c\<lparr> c_annual := NegZero, c_capital := NegZero \<rparr>) (m_otherCosts m')
       = map (\<lambda>c. c\<lparr> c_annual := NegZero, c_capital := NegZero \<rparr>) (m_otherCosts m)"

text \<open>
  The value the restore writes over a field that held \<open>v\<close> before the run: the number
  \<^verbatim>\<open>Number(v) || 0\<close>. It is \<open>v\<close> itself when \<open>v\<close> is a number other than \<^verbatim>\<open>NaN\<close> and -0.
\<close>

definition restored_value :: "jsval \<Rightarrow> jsval" where
  "restored_value v = JsNum (number_or v (Num 0))"


text \<open>The model with each of the six fields as the restore writes it.\<close>

definition as_restored :: "model \<Rightarrow> model" where
  "as_restored m =
     m\<lparr> m_outputs := map (\<lambda>o'. o'\<lparr> o_value := restored_value (o_value o') \<rparr>) (m_outputs m),
        m_treatments :=
          map (\<lambda>t. t\<lparr> t_materialsCost := restored_value (t_materialsCost t),
                     t_servicesCost := restored_value (t_servicesCost t),
                     t_labourCost := restored_value (t_labourCost t) \<rparr>) (m_treatments m),
        m_otherCosts :=
          map (\<lambda>c. c\<lparr> c_annual := restored_value (c_annual c),
                     c_capital := restored_value (c_capital c) \<rparr>) (m_otherCosts m) \<rparr>"


section \<open>The description of the root finder\<close>

text \<open>
  The net present value of a series at a rate \<open>r\<close> (a fraction) is the sum over the years
  \<open>t\<close> of the flow of the year divided by \<open>(1 + r) ^ t\<close>: the flow of the first year,
  undiscounted, plus the net present value of the later years, each discounted one year
  more.
\<close>

fun npv_from :: "jsnum list \<Rightarrow> jsnum \<Rightarrow> nat \<Rightarrow> jsnum" where
  "npv_from [] r t = Num 0"
| "npv_from (c # cs) r t = c / jpow (Num 1 + r) t + npv_from cs r (Suc t)"

definition NPV :: "jsnum list \<Rightarrow> jsnum \<Rightarrow> jsnum" where
  "NPV cfs r = npv_from cfs r 0"

text \<open>
  The search for the internal rate of return as the specification describes it, to be
  compared with \<open>irr\<close>: the upper bound 5 is multiplied by 1.5 at most 20 times, until the
  product of the net present values at the lower bound -0.99 and at the upper bound is
  not above 0 (no rate when it always is); then the bracket is halved at most 80 times,
  and the result is 100 times the midpoint of the first bracket whose midpoint has a net
  present value below 1e-8 in absolute value, or 100 times the midpoint of the bracket
  after 80 halvings. A halving keeps the lower half when the product of the net present
  values at the lower bound and at the midpoint is at most 0.
\<close>

definition grow :: "jsnum \<Rightarrow> jsnum" where
  "grow hi = hi * Num (3 / 2)"

definition midpoint :: "jsnum \<times> jsnum \<Rightarrow> jsnum" where
  "midpoint br = (fst br + snd br) / Num 2"

definition within_tolerance :: "jsnum list \<Rightarrow> jsnum \<times> jsnum \<Rightarrow> bool" where
  "within_tolerance cfs br \<longleftrightarrow> jlt (jabs (NPV cfs (midpoint br))) (Num (1 / 100000000))"

definition bisect_step :: "jsnum list \<Rightarrow> jsnum \<times> jsnum \<Rightarrow> jsnum \<times> jsnum" where
  "bisect_step cfs br =
     (if jle (NPV cfs (fst br) * NPV cfs (midpoint br)) (Num 0) then (fst br, midpoint br)
      else (midpoint br, snd br))"

definition bisect_spec :: "jsnum list \<Rightarrow> jsnum \<Rightarrow> jsnum \<Rightarrow> jsnum" where
  "bisect_spec cfs lo hi =
     (case find (within_tolerance cfs) (map (\<lambda>j. (bisect_step cfs ^^ j) (lo, hi)) [0..<80]) of
        Some br \<Rightarrow> midpoint br * Num 100
      | None \<Rightarrow> midpoint ((bisect_step cfs ^^ 80) (lo, hi)) * Num 100)"

definition irr_search :: "jsnum list \<Rightarrow> jsnum" where
  "irr_search cfs =
     (case find (\<lambda>hi. \<not> jgt (NPV cfs (Num (- (99 / 100))) * NPV cfs hi) (Num 0))
             (map (\<lambda>k. (grow ^^ k) (Num 5)) [0..<21]) of
        None \<Rightarrow> NaN
      | Some hi \<Rightarrow> bisect_spec cfs (Num (- (99 / 100))) hi)"

text \<open>
  The description with the test of the source: no rate when no flow is above 0 or no flow
  is below 0.
\<close>

definition irr_spec :: "jsnum list \<Rightarrow> jsnum" where
  "irr_spec cfs =
     (if \<not> list_ex (\<lambda>v. jgt v (Num 0)) cfs \<or> \<not> list_ex (\<lambda>v. jlt v (Num 0)) cfs then NaN
      else irr_search cfs)"

text \<open>
  The description with the test as the claim words it: no rate when all flows are at least
  0 or all are at most 0.
\<close>

definition irr_claimed :: "jsnum list \<Rightarrow> jsnum" where
  "irr_claimed cfs =
     (if list_all (\<lambda>v. jge v (Num 0)) cfs \<or> list_all (\<lambda>v. jle v (Num 0)) cfs then NaN
      else irr_search cfs)"

section \<open>Trial tables without a control and with two\<close>

text \<open>The names of the rows in the order of their first appearance.\<close>

definition add_name :: "string \<Rightarrow> string list \<Rightarrow> string list" where
  "add_name n ks = (if n \<in> set ks then ks else ks @ [n])"

definition appearances :: "string list \<Rightarrow> string list" where
  "appearances ns = fold add_name ns []"

text \<open>
  A table of two treatments with a yield each and no control column, and the same table
  with a control column in which both rows are flagged. The conversion
  \<open>number_of_digits\<close> agrees with \<^verbatim>\<open>Number\<close> on the texts of decimal digits, the only
  ones the tables hold in their yield column.
\<close>

definition number_of_digits :: "string \<Rightarrow> jsnum" where
  "number_of_digits s =
     (if s \<noteq> [] \<and> list_all (\<lambda>c. 48 \<le> (of_char c :: nat) \<and> (of_char c :: nat) \<le> 57) s
      then Num (real (foldl (\<lambda>acc c. 10 * acc + ((of_char c :: nat) - 48)) 0 s))
      else NaN)"

definition trial_headers :: "string list" where
  "trial_headers = [''treatment'', ''yield'']"

definition trial_rows :: "row list" where
  "trial_rows =
     [[(''treatment'', ''Gypsum''), (''yield'', ''3'')],
      [(''treatment'', ''Lime''), (''yield'', ''4'')]]"

definition flagged_headers :: "string list" where
  "flagged_headers = [''treatment'', ''yield'', ''is_control'']"

definition flagged_rows :: "row list" where
  "flagged_rows =
     [[(''treatment'', ''Gypsum''), (''yield'', ''3''), (''is_control'', ''yes'')],
      [(''treatment'', ''Lime''), (''yield'', ''4''), (''is_control'', ''yes'')]]"

definition trial_params :: params where
  "trial_params = \<lparr> pricePerTonne = 1, p_years = 1, persistenceYears = 1, discountRate = 0 \<rparr>"

text \<open>
  The order of the ranked list: a result is not below a later one, by net present value
  with \<^verbatim>\<open>NaN\<close> counted as \<^verbatim>\<open>-Infinity\<close>.
\<close>

definition not_below :: "cba_result \<Rightarrow> cba_result \<Rightarrow> bool" where
  "not_below a b \<longleftrightarrow> \<not> jlt (sort_key a) (sort_key b)"

section \<open>Properties of the number model\<close>



lemma jadd_assoc: "((a :: jsnum) + b) + c = a + (b + c)"
  by (cases a; cases b; cases c) simp_all


section \<open>Discounted metrics of a one-treatment scenario\<close>

lemmas cashflow_eval =
  computeAll_def buildCashflows_def new_Array_def Let_def treatment_item_def add_years_def
  add_series_def add_at_def presentValue_def additionalBenefitsSeries_def clamp_def num_or_def
  val_or_def number_or_def jor_def minus_jsnum_def valuePerHa_def annualCostPerHa_def
  delta_of_def jgt_def upt_rec

text \<open>
  C1, as amended. A model with exactly one treatment of area 1 ha, a per-hectare output
  value of 100, a per-hectare annual cost of 40, no capital cost, no other benefit or cost
  item, over a horizon of one year, evaluated at a discount rate of 0, an adoption
  multiplier of 1 and a risk fraction of 0: in every mode of the ratio \<^verbatim>\<open>computeAll\<close>
  returns pvBenefits = 100, pvCosts = 40, npv = 60 and roi = 150; it returns bcr = 2.5
  when the ratio is taken over all costs (a mode other than \<^verbatim>\<open>constrained\<close>) or the
  treatment is flagged \<^verbatim>\<open>constrained\<close>, and the undefined ratio \<^verbatim>\<open>NaN\<close> otherwise.
\<close>

theorem scenario_metrics:
  assumes "m_treatments m = [t]" and "t_area t = 1"
    and "valuePerHa (m_outputs m) t = Num 100" and "annualCostPerHa t = Num 40"
    and "t_capitalCost t = 0" and "m_benefits m = []" and "m_otherCosts m = []"
    and "tm_years (m_time m) = Num 1"
  shows "\<exists>res. computeAll m (Num 0) (Num 1) (Num 0) bcrMode = Inr res
       \<and> pvBenefits res = Num 100
       \<and> pvCosts res = Num 40
       \<and> npv res = Num 60
       \<and> roi res = Num 150
       \<and> bcr res = (if bcrMode \<noteq> ''constrained'' \<or> t_constrained t then Num 2.5 else NaN)"
proof -
  have flows: "buildCashflows m (Num 1) (Num 0) =
      Inr \<lparr> benefitByYear = [Num 0, Num 100], costByYear = [Num 0, Num 40],
            constrainedCostByYear = (if t_constrained t then [Num 0, Num 40] else [Num 0, Num 0]),
            cf = [Num 0, Num 60], annualGM = Num 60 \<rparr>"
    using assms
    by (simp add: buildCashflows_def new_Array_def Let_def treatment_item_def add_years_def
        add_series_def add_at_def additionalBenefitsSeries_def clamp_def num_or_def val_or_def
        minus_jsnum_def upt_rec)
  have pv: "presentValue [Num 0, Num 100] (Num 0) = Num 100"
    "presentValue [Num 0, Num 40] (Num 0) = Num 40"
    "presentValue [Num 0, Num 0] (Num 0) = Num 0"
    by (simp_all add: presentValue_def upt_rec)
  show ?thesis
    by (simp add: computeAll_def Let_def flows pv jgt_def minus_jsnum_def)
qed

text \<open>
  The scenario with the treatment flagged \<^verbatim>\<open>constrained\<close>, in the mode \<^verbatim>\<open>all\<close> and in
  the mode \<^verbatim>\<open>constrained\<close>, and with the treatment not flagged, in the mode
  \<^verbatim>\<open>constrained\<close>.
\<close>

theorem scenario_metrics_witness:
  "map_sum id (\<lambda>res. (pvBenefits res, pvCosts res, npv res, roi res, bcr res))
       (computeAll (scenario_model True) (Num 0) (Num 1) (Num 0) ''all'')
     = Inr (Num 100, Num 40, Num 60, Num 150, Num 2.5)
 \<and> map_sum id (\<lambda>res. (pvBenefits res, pvCosts res, npv res, roi res, bcr res))
       (computeAll (scenario_model True) (Num 0) (Num 1) (Num 0) ''constrained'')
     = Inr (Num 100, Num 40, Num 60, Num 150, Num 2.5)
 \<and> map_sum id (\<lambda>res. (pvBenefits res, pvCosts res, npv res, roi res, bcr res))
       (computeAll (scenario_model False) (Num 0) (Num 1) (Num 0) ''constrained'')
     = Inr (Num 100, Num 40, Num 60, Num 150, NaN)"
proof -
  have hyps: "m_treatments (scenario_model c) =
        [\<lparr> t_area = 1, t_deltas = [(''yield'', 2)], t_materialsCost = JsNum (Num 10),
           t_servicesCost = JsNum (Num 10), t_labourCost = JsNum (Num 20), t_capitalCost = 0,
           t_constrained = c \<rparr>]"
    "valuePerHa (m_outputs (scenario_model c))
        \<lparr> t_area = 1, t_deltas = [(''yield'', 2)], t_materialsCost = JsNum (Num 10),
          t_servicesCost = JsNum (Num 10), t_labourCost = JsNum (Num 20), t_capitalCost = 0,
          t_constrained = c \<rparr> = Num 100"
    "annualCostPerHa
        \<lparr> t_area = 1, t_deltas = [(''yield'', 2)], t_materialsCost = JsNum (Num 10),
          t_servicesCost = JsNum (Num 10), t_labourCost = JsNum (Num 20), t_capitalCost = 0,
          t_constrained = c \<rparr> = Num 40"
    "m_benefits (scenario_model c) = []" "m_otherCosts (scenario_model c) = []"
    "tm_years (m_time (scenario_model c)) = Num 1" for c
    by (simp_all add: scenario_model_def valuePerHa_def delta_of_def annualCostPerHa_def
        num_or_def val_or_def number_or_def jor_def)
  from scenario_metrics [OF hyps(1) _ hyps(2,3) _ hyps(4,5,6), of True "''all''"]
  have a: "map_sum id (\<lambda>res. (pvBenefits res, pvCosts res, npv res, roi res, bcr res))
       (computeAll (scenario_model True) (Num 0) (Num 1) (Num 0) ''all'')
     = Inr (Num 100, Num 40, Num 60, Num 150, Num 2.5)"
    by auto
  from scenario_metrics [OF hyps(1) _ hyps(2,3) _ hyps(4,5,6), of True "''constrained''"]
  have b: "map_sum id (\<lambda>res. (pvBenefits res, pvCosts res, npv res, roi res, bcr res))
       (computeAll (scenario_model True) (Num 0) (Num 1) (Num 0) ''constrained'')
     = Inr (Num 100, Num 40, Num 60, Num 150, Num 2.5)"
    by auto
  from scenario_metrics [OF hyps(1) _ hyps(2,3) _ hyps(4,5,6), of False "''constrained''"]
  have c: "map_sum id (\<lambda>res. (pvBenefits res, pvCosts res, npv res, roi res, bcr res))
       (computeAll (scenario_model False) (Num 0) (Num 1) (Num 0) ''constrained'')
     = Inr (Num 100, Num 40, Num 60, Num 150, NaN)"
    by auto
  from a b c show ?thesis by simp
qed

text \<open>
  C1 as stated fails: the scenario with the treatment not flagged \<^verbatim>\<open>constrained\<close>,
  evaluated in the mode \<^verbatim>\<open>constrained\<close>, has no constrained cost, and its ratio is
  \<^verbatim>\<open>NaN\<close>, not 2.5.
\<close>

theorem scenario_bcr_counterexample:
  "m_treatments (scenario_model False) =
       [\<lparr> t_area = 1, t_deltas = [(''yield'', 2)], t_materialsCost = JsNum (Num 10),
          t_servicesCost = JsNum (Num 10), t_labourCost = JsNum (Num 20), t_capitalCost = 0,
          t_constrained = False \<rparr>]
 \<and> valuePerHa (m_outputs (scenario_model False)) (hd (m_treatments (scenario_model False))) = Num 100
 \<and> annualCostPerHa (hd (m_treatments (scenario_model False))) = Num 40
 \<and> m_benefits (scenario_model False) = [] \<and> m_otherCosts (scenario_model False) = []
 \<and> tm_years (m_time (scenario_model False)) = Num 1
 \<and> map_sum id bcr (computeAll (scenario_model False) (Num 0) (Num 1) (Num 0) ''constrained'')
      = Inr NaN"
  by (simp add: cashflow_eval scenario_model_def)

section \<open>Benefit-cost ratio and net present value\<close>

text \<open>
  C5, as amended. For every evaluation that returns, when the ratio is taken over all
  costs (a mode other than \<^verbatim>\<open>constrained\<close>) and the discounted cost pvCosts is strictly
  positive, the benefit-cost ratio exceeds 1 if and only if the net present value exceeds
  0.
\<close>

theorem bcr_gt_one_iff_npv_pos:
  assumes "computeAll m rate adoptMul risk bcrMode = Inr res"
    and "bcrMode \<noteq> ''constrained''"
    and "jgt (pvCosts res) (Num 0)"
  shows "jgt (bcr res) (Num 1) \<longleftrightarrow> jgt (npv res) (Num 0)"
proof -
  from assms(1) obtain flows where flows: "buildCashflows m adoptMul risk = Inr flows"
    by (cases "buildCashflows m adoptMul risk") (simp_all add: computeAll_def)
  define B where "B = presentValue (benefitByYear flows) rate"
  define C where "C = presentValue (costByYear flows) rate"
  from assms(1) flows have res: "pvCosts res = C" "npv res = B - C"
    "bcr res = (if jgt (if bcrMode = ''constrained''
                        then presentValue (constrainedCostByYear flows) rate else C) (Num 0)
                then B / (if bcrMode = ''constrained''
                          then presentValue (constrainedCostByYear flows) rate else C)
                else NaN)"
    by (auto simp add: computeAll_def Let_def B_def C_def)
  have c: "jlt (Num 0) C"
    using assms(3) by (simp add: res jgt_def)
  have "jlt (Num 1) (B / C) \<longleftrightarrow> jlt (Num 0) (B - C)"
    using c by (cases B; cases C) (auto simp add: minus_jsnum_def field_simps)
  then show ?thesis
    using assms(2) c by (simp add: res jgt_def)
qed

theorem bcr_gt_one_iff_npv_pos_witness:
  "map_sum id (\<lambda>res. (jgt (pvCosts res) (Num 0), jgt (bcr res) (Num 1), jgt (npv res) (Num 0)))
       (computeAll (scenario_model True) (Num 0) (Num 1) (Num 0) ''all'')
     = Inr (True, True, True)"
proof -
  obtain res where res: "computeAll (scenario_model True) (Num 0) (Num 1) (Num 0) ''all'' = Inr res"
    by (simp add: cashflow_eval scenario_model_def)
  then have c: "jgt (pvCosts res) (Num 0)" and n: "jgt (npv res) (Num 0)"
    by (auto simp add: cashflow_eval scenario_model_def)
  have "''all'' \<noteq> ''constrained''" by simp
  from bcr_gt_one_iff_npv_pos [OF res this c] c n res show ?thesis by simp
qed

text \<open>
  C5 as stated fails in the mode \<^verbatim>\<open>constrained\<close>, where the ratio divides by the
  constrained costs only: with a constrained cost of 10, an unconstrained cost of 90 and a
  benefit of 50, pvCosts is 100, the ratio is 5 and the net present value is -50.
\<close>

theorem bcr_constrained_counterexample:
  "map_sum id (\<lambda>res. (pvCosts res, bcr res, npv res,
                      jgt (pvCosts res) (Num 0), jgt (bcr res) (Num 1), jgt (npv res) (Num 0)))
       (computeAll mixed_model (Num 0) (Num 1) (Num 0) ''constrained'')
     = Inr (Num 100, Num 5, Num (- 50), True, True, False)"
  by (simp add: cashflow_eval scenario_model_def mixed_model_def)

section \<open>One-off benefit items\<close>














section \<open>Rescaling the cash flows of MIRR, without rounding\<close>

text \<open>
  In the arithmetic of this theory, which does not round, multiplying by a positive
  finite factor commutes with the operations of \<^verbatim>\<open>mirr\<close>. The doubles of the program
  round each product of a flow by the factor and each later operation, and the values
  \<^verbatim>\<open>mirr\<close> returns for a series and for its rescaling can differ in their last digits:
  the statements of this section are about the exact values only.
\<close>

lemma jlt_scale: "0 < k \<Longrightarrow> jlt (Num k * v) (Num 0) = jlt v (Num 0)"
  by (cases v) (simp_all add: mult_less_0_iff)

lemma jgt_scale: "0 < k \<Longrightarrow> jgt (Num k * v) (Num 0) = jgt v (Num 0)"
  by (cases v) (simp_all add: jgt_def zero_less_mult_iff)

lemma scale_divide: "0 < k \<Longrightarrow> (Num k * v) / d = Num k * (v / d)"
  by (cases v; cases d) (auto simp add: zero_less_mult_iff mult_less_0_iff divide_less_0_iff zero_less_divide_iff)

lemma scale_times: "0 < k \<Longrightarrow> (Num k * v) * w = Num k * (v * w)"
  by (cases v; cases w) (auto simp add: zero_less_mult_iff mult_less_0_iff)

lemma scale_plus: "0 < k \<Longrightarrow> Num k * a + Num k * b = Num k * (a + b)"
  by (cases a; cases b) (auto simp add: distrib_left)

lemma scale_eq_zero: "0 < k \<Longrightarrow> (Num k * p = Num 0) = (p = Num 0)"
  by (cases p) auto

lemma scale_ratio: "0 < k \<Longrightarrow> - (Num k * f) / (Num k * p) = - f / p"
  by (cases f; cases p) (auto simp add: zero_less_mult_iff mult_less_0_iff zero_le_mult_iff)

lemma fold_mirr_step_scale:
  assumes "0 < k" and "\<forall>t \<in> set ts. t < length cfs"
  shows "fold (mirr_step (map (\<lambda>v. Num k * v) cfs) fr rr) ts (Num k * p, Num k * q)
       = (Num k * fst (fold (mirr_step cfs fr rr) ts (p, q)),
          Num k * snd (fold (mirr_step cfs fr rr) ts (p, q)))"
  using assms(2)
proof (induction ts arbitrary: p q)
  case Nil
  then show ?case by simp
next
  case (Cons t ts)
  then have t: "t < length cfs" by simp
  have "mirr_step (map (\<lambda>v. Num k * v) cfs) fr rr t (Num k * p, Num k * q)
      = (Num k * fst (mirr_step cfs fr rr t (p, q)), Num k * snd (mirr_step cfs fr rr t (p, q)))"
    using t assms(1)
    by (simp add: mirr_step_def Let_def jlt_scale jgt_scale scale_divide scale_times scale_plus)
  then show ?case
    using Cons by (simp add: case_prod_beta)
qed

text \<open>
  Without rounding, \<^verbatim>\<open>mirr\<close> of a series with every flow multiplied by a positive
  factor \<open>k\<close> is \<^verbatim>\<open>mirr\<close> of the series, at the same finance and reinvestment rates.
\<close>

lemma mirr_scale_invariant_exact:
  assumes "0 < k"
  shows "mirr (map (\<lambda>v. Num k * v) cfs) financeRatePct reinvestRatePct
       = mirr cfs financeRatePct reinvestRatePct"
proof -
  define fr where "fr = financeRatePct / Num 100"
  define rr where "rr = reinvestRatePct / Num 100"
  obtain p q where pq: "mirr_sums cfs fr rr = (p, q)" by (cases "mirr_sums cfs fr rr")
  have "mirr_sums (map (\<lambda>v. Num k * v) cfs) fr rr
      = fold (mirr_step (map (\<lambda>v. Num k * v) cfs) fr rr) [0..<length cfs]
          (Num k * Num 0, Num k * Num 0)"
    by (simp add: mirr_sums_def)
  also have "\<dots> = (Num k * p, Num k * q)"
    using fold_mirr_step_scale [OF assms, of "[0..<length cfs]" cfs fr rr "Num 0" "Num 0"] pq
    by (simp add: mirr_sums_def)
  finally have scaled: "mirr_sums (map (\<lambda>v. Num k * v) cfs) fr rr = (Num k * p, Num k * q)" .
  show ?thesis
    using assms
    by (simp add: mirr_def Let_def fr_def [symmetric] rr_def [symmetric] scaled pq
        scale_eq_zero scale_ratio)
qed

section \<open>The simulation run\<close>

text \<open>
  Every iteration writes snapshot values times a shock, by index, and leaves the frame of
  the model as it is; the restore writes the snapshot values back.
\<close>

lemma number_or_restored_value: "number_or (restored_value v) (Num 0) = number_or v (Num 0)"
  by (simp add: restored_value_def number_or_def jor_def)


lemma set_outputs_frame:
  "map (\<lambda>o'. o'\<lparr> o_value := NegZero \<rparr>) outs' = map (\<lambda>o'. o'\<lparr> o_value := NegZero \<rparr>) outs \<Longrightarrow>
   map (\<lambda>o'. o'\<lparr> o_value := NegZero \<rparr>)
     (set_outputs (map (\<lambda>o'. number_or (o_value o') (Num 0)) outs) sh outs')
     = map (\<lambda>o'. o'\<lparr> o_value := NegZero \<rparr>) outs"
proof (induction outs' arbitrary: outs)
  case Nil
  then show ?case by (simp add: set_outputs_def)
next
  case (Cons a outs')
  then obtain b bs where "outs = b # bs" by (cases outs) auto
  with Cons show ?case by (simp add: set_outputs_def)
qed

lemma restore_outputs_frame:
  "map (\<lambda>o'. o'\<lparr> o_value := NegZero \<rparr>) outs' = map (\<lambda>o'. o'\<lparr> o_value := NegZero \<rparr>) outs \<Longrightarrow>
   restore_outputs (map (\<lambda>o'. number_or (o_value o') (Num 0)) outs) outs'
     = map (\<lambda>o'. o'\<lparr> o_value := restored_value (o_value o') \<rparr>) outs"
proof (induction outs' arbitrary: outs)
  case Nil
  then show ?case by (simp add: restore_outputs_def)
next
  case (Cons a outs')
  then obtain b bs where o: "outs = b # bs" by (cases outs) auto
  with Cons have "a\<lparr> o_value := NegZero \<rparr> = b\<lparr> o_value := NegZero \<rparr>" by simp
  then have "a\<lparr> o_value := v \<rparr> = b\<lparr> o_value := v \<rparr>" for v
    by (cases a, cases b) simp
  with Cons o show ?case by (simp add: restore_outputs_def restored_value_def)
qed

lemma set_treatCosts_frame:
  "map (\<lambda>t. t\<lparr> t_materialsCost := NegZero, t_servicesCost := NegZero, t_labourCost := NegZero \<rparr>) ts'
     = map (\<lambda>t. t\<lparr> t_materialsCost := NegZero, t_servicesCost := NegZero, t_labourCost := NegZero \<rparr>) ts \<Longrightarrow>
   map (\<lambda>t. t\<lparr> t_materialsCost := NegZero, t_servicesCost := NegZero, t_labourCost := NegZero \<rparr>)
     (set_treatCosts (map (\<lambda>t. \<lparr> tb_materials = number_or (t_materialsCost t) (Num 0),
                tb_services = number_or (t_servicesCost t) (Num 0),
                tb_labour = number_or (t_labourCost t) (Num 0) \<rparr>) ts) sh ts')
     = map (\<lambda>t. t\<lparr> t_materialsCost := NegZero, t_servicesCost := NegZero, t_labourCost := NegZero \<rparr>) ts"
proof (induction ts' arbitrary: ts)
  case Nil
  then show ?case by (simp add: set_treatCosts_def)
next
  case (Cons a ts')
  then obtain b bs where "ts = b # bs" by (cases ts) auto
  with Cons show ?case by (simp add: set_treatCosts_def)
qed

lemma restore_treatCosts_frame:
  "map (\<lambda>t. t\<lparr> t_materialsCost := NegZero, t_servicesCost := NegZero, t_labourCost := NegZero \<rparr>) ts'
     = map (\<lambda>t. t\<lparr> t_materialsCost := NegZero, t_servicesCost := NegZero, t_labourCost := NegZero \<rparr>) ts \<Longrightarrow>
   restore_treatCosts (map (\<lambda>t. \<lparr> tb_materials = number_or (t_materialsCost t) (Num 0),
                tb_services = number_or (t_servicesCost t) (Num 0),
                tb_labour = number_or (t_labourCost t) (Num 0) \<rparr>) ts) ts'
     = map (\<lambda>t. t\<lparr> t_materialsCost := restored_value (t_materialsCost t),
                     t_servicesCost := restored_value (t_servicesCost t),
                     t_labourCost := restored_value (t_labourCost t) \<rparr>) ts"
proof (induction ts' arbitrary: ts)
  case Nil
  then show ?case by (simp add: restore_treatCosts_def)
next
  case (Cons a ts')
  then obtain b bs where o: "ts = b # bs" by (cases ts) auto
  with Cons have "a\<lparr> t_materialsCost := NegZero, t_servicesCost := NegZero, t_labourCost := NegZero \<rparr>
      = b\<lparr> t_materialsCost := NegZero, t_servicesCost := NegZero, t_labourCost := NegZero \<rparr>" by simp
  then have "a\<lparr> t_materialsCost := u, t_servicesCost := v, t_labourCost := w \<rparr>
      = b\<lparr> t_materialsCost := u, t_servicesCost := v, t_labourCost := w \<rparr>" for u v w
    by (cases a, cases b) simp
  with Cons o show ?case by (simp add: restore_treatCosts_def restored_value_def)
qed

lemma set_otherCosts_frame:
  "map (\<lambda>c. c\<lparr> c_annual := NegZero, c_capital := NegZero \<rparr>) cs'
     = map (\<lambda>c. c\<lparr> c_annual := NegZero, c_capital := NegZero \<rparr>) cs \<Longrightarrow>
   map (\<lambda>c. c\<lparr> c_annual := NegZero, c_capital := NegZero \<rparr>)
     (set_otherCosts (map (\<lambda>c. \<lparr> ob_annual = number_or (c_annual c) (Num 0),
                ob_capital = number_or (c_capital c) (Num 0) \<rparr>) cs) sh cs')
     = map (\<lambda>c. c\<lparr> c_annual := NegZero, c_capital := NegZero \<rparr>) cs"
proof (induction cs' arbitrary: cs)
  case Nil
  then show ?case by (simp add: set_otherCosts_def)
next
  case (Cons a cs')
  then obtain b bs where "cs = b # bs" by (cases cs) auto
  with Cons show ?case by (simp add: set_otherCosts_def)
qed

lemma restore_otherCosts_frame:
  "map (\<lambda>c. c\<lparr> c_annual := NegZero, c_capital := NegZero \<rparr>) cs'
     = map (\<lambda>c. c\<lparr> c_annual := NegZero, c_capital := NegZero \<rparr>) cs \<Longrightarrow>
   restore_otherCosts (map (\<lambda>c. \<lparr> ob_annual = number_or (c_annual c) (Num 0),
                ob_capital = number_or (c_capital c) (Num 0) \<rparr>) cs) cs'
     = map (\<lambda>c. c\<lparr> c_annual := restored_value (c_annual c),
                     c_capital := restored_value (c_capital c) \<rparr>) cs"
proof (induction cs' arbitrary: cs)
  case Nil
  then show ?case by (simp add: restore_otherCosts_def)
next
  case (Cons a cs')
  then obtain b bs where o: "cs = b # bs" by (cases cs) auto
  with Cons have "a\<lparr> c_annual := NegZero, c_capital := NegZero \<rparr>
      = b\<lparr> c_annual := NegZero, c_capital := NegZero \<rparr>" by simp
  then have "a\<lparr> c_annual := u, c_capital := v \<rparr> = b\<lparr> c_annual := u, c_capital := v \<rparr>" for u v
    by (cases a, cases b) simp
  with Cons o show ?case by (simp add: restore_otherCosts_def restored_value_def)
qed

lemma same_frame_refl: "same_frame m m"
  by (simp add: same_frame_def)

lemma same_frame_time: "same_frame m m' \<Longrightarrow> m_time m' = m_time m"
  by (simp add: same_frame_def)

text \<open>
  \<^verbatim>\<open>computeAll\<close> throws exactly when the allocation of the arrays of the horizon does.
\<close>

lemma computeAll_throws:
  "new_Array (tm_years (m_time m) + Num 1) = Inl e \<Longrightarrow> computeAll m rate a r mode = Inl e"
  by (simp add: computeAll_def buildCashflows_def)

lemma computeAll_returns:
  "new_Array (tm_years (m_time m) + Num 1) = Inr len \<Longrightarrow> \<exists>res. computeAll m rate a r mode = Inr res"
  by (simp add: computeAll_def buildCashflows_def Let_def)

text \<open>One iteration, whether it throws or not, keeps the frame and the horizon.\<close>

text \<open>One iteration, whether it throws or not, keeps the frame and the horizon.\<close>

lemma sim_iter_frame:
  assumes "same_frame m m'"
  shows "case sim_iter (baseOutValues m) (baseTreatCosts m) (baseOtherCosts m) varPct (m', t) of
           Inl (e, m'') \<Rightarrow> same_frame m m''
         | Inr ((m'', t''), r) \<Rightarrow> same_frame m m''"
  using assms
  by (simp add: sim_iter_def same_frame_def Let_def baseOutValues_def baseTreatCosts_def
      baseOtherCosts_def set_outputs_frame set_treatCosts_frame set_otherCosts_frame
      split: prod.splits sum.splits)

lemma sim_iter_Inl:
  assumes "sim_iter bOut bTreat bOther varPct (m', t) = Inl (e, m3)"
  shows "m_time m3 = m_time m'
       \<and> (\<exists>disc a r. computeAll m3 disc a r (sim_bcrMode (m_sim m')) = Inl e)"
  using assms
  by (auto simp add: sim_iter_def Let_def split: prod.splits sum.splits if_splits)

lemma sim_iter_returns:
  assumes "m_time m' = m_time m" and "new_Array (tm_years (m_time m) + Num 1) = Inr len"
  shows "\<exists>m'' t'' r. sim_iter bOut bTreat bOther varPct (m', t) = Inr ((m'', t''), r)"
proof (cases "sim_iter bOut bTreat bOther varPct (m', t)")
  case (Inl thrown)
  obtain e m3 where "thrown = (e, m3)" by (cases thrown)
  with Inl sim_iter_Inl [of bOut bTreat bOther varPct m' t e m3]
  obtain disc a r where "m_time m3 = m_time m'"
    "computeAll m3 disc a r (sim_bcrMode (m_sim m')) = Inl e"
    by auto
  with computeAll_returns [of m3 len disc a r "sim_bcrMode (m_sim m')"] assms
  show ?thesis by simp
next
  case (Inr ok)
  then show ?thesis by (cases ok) (auto simp add: prod_eq_iff)
qed

text \<open>The loop: a run of \<open>k\<close> iterations that returns keeps the frame and adds \<open>k\<close> records.\<close>

lemma sim_loop_frame:
  assumes "same_frame m m'"
    and "sim_loop (baseOutValues m) (baseTreatCosts m) (baseOtherCosts m) varPct k (m', t) acc
           = Inr ((m'', t''), details)"
  shows "same_frame m m'' \<and> length details = length acc + k"
  using assms
proof (induction k arbitrary: m' t acc)
  case 0
  then show ?case by simp
next
  case (Suc k)
  show ?case
  proof (cases "sim_iter (baseOutValues m) (baseTreatCosts m) (baseOtherCosts m) varPct (m', t)")
    case (Inl thrown)
    with Suc.prems(2) show ?thesis by simp
  next
    case (Inr ok)
    obtain m1 t1 r where ok: "ok = ((m1, t1), r)" by (cases ok) auto
    from sim_iter_frame [OF Suc.prems(1), of varPct t] Inr ok have "same_frame m m1" by simp
    moreover from Suc.prems(2) Inr ok
    have "sim_loop (baseOutValues m) (baseTreatCosts m) (baseOtherCosts m) varPct k (m1, t1)
            (acc @ [r]) = Inr ((m'', t''), details)"
      by simp
    ultimately show ?thesis using Suc.IH [of m1 t1 "acc @ [r]"] by simp
  qed
qed

lemma sim_loop_returns:
  assumes "same_frame m m'" and "new_Array (tm_years (m_time m) + Num 1) = Inr len"
  shows "\<exists>m'' t'' details.
           sim_loop (baseOutValues m) (baseTreatCosts m) (baseOtherCosts m) varPct k (m', t) acc
             = Inr ((m'', t''), details)"
  using assms(1)
proof (induction k arbitrary: m' t acc)
  case 0
  then show ?case by simp
next
  case (Suc k)
  from sim_iter_returns [OF same_frame_time [OF Suc.prems] assms(2)]
  obtain m1 t1 r where it:
    "sim_iter (baseOutValues m) (baseTreatCosts m) (baseOtherCosts m) varPct (m', t)
       = Inr ((m1, t1), r)"
    by blast
  from sim_iter_frame [OF Suc.prems, of varPct t] it have "same_frame m m1" by simp
  from Suc.IH [OF this, of t1 "acc @ [r]"] it show ?case by simp
qed

lemma sim_loop_throws:
  assumes "m_time m' = m_time m" and "new_Array (tm_years (m_time m) + Num 1) = Inl e"
  shows "\<exists>m3. sim_loop bOut bTreat bOther varPct (Suc k) (m', t) acc = Inl (e, m3)"
proof -
  have "computeAll m3 disc a r mode = Inl e" if "m_time m3 = m_time m'" for m3 disc a r mode
    using computeAll_throws [of m3 e disc a r mode] that assms by simp
  then show ?thesis
    by (simp add: sim_iter_def Let_def split: prod.splits)
qed

text \<open>The first record of a loop is the record of its first iteration.\<close>

lemma sim_loop_extends:
  assumes "sim_loop bOut bTreat bOther varPct k st acc = Inr (st', details)"
  shows "\<exists>rest. details = acc @ rest"
  using assms
proof (induction k arbitrary: st acc)
  case 0
  then show ?case by simp
next
  case (Suc k)
  show ?case
  proof (cases "sim_iter bOut bTreat bOther varPct st")
    case (Inl thrown)
    with Suc.prems show ?thesis by simp
  next
    case (Inr ok)
    obtain st1 r where ok: "ok = (st1, r)" by (cases ok)
    with Suc.prems Inr
    have "sim_loop bOut bTreat bOther varPct k st1 (acc @ [r]) = Inr (st', details)" by simp
    from Suc.IH [OF this] show ?thesis by auto
  qed
qed

text \<open>
  The allocation of the two arrays of the run decides whether the run starts; a run count
  that passes it is at least 100.
\<close>

lemma new_Array_nat: "j < 4294967296 \<Longrightarrow> new_Array (Num (real j)) = Inr j"
  by (simp add: new_Array_def)

lemma runCount_positive:
  "0 < k \<Longrightarrow> runCount (Some (Num (real k))) = Num (real (max 100 k))"
  by (simp add: runCount_def jor_def max_def)

lemma runCount_default:
  "n = None \<or> n = Some NaN \<or> n = Some (Num 0) \<Longrightarrow> runCount n = Num 1000"
  by (auto simp add: runCount_def jor_def)

lemma new_Array_runCount:
  assumes "new_Array (runCount n) = Inr N"
  shows "100 \<le> N"
proof -
  obtain x where x: "jor (case n of None \<Rightarrow> NaN | Some y \<Rightarrow> y) (Num 1000) = x"
    by simp
  show ?thesis
  proof (cases x)
    case (Num r)
    with assms x show ?thesis
      by (auto simp add: runCount_def new_Array_def le_nat_iff le_floor_iff split: if_splits)
  next
    case NaN
    with assms x show ?thesis by (simp add: runCount_def new_Array_def)
  next
    case PInf
    with assms x show ?thesis by (simp add: runCount_def new_Array_def)
  next
    case NInf
    with assms x show ?thesis by (simp add: runCount_def new_Array_def)
  qed
qed

lemma runSimulation_throws:
  "new_Array (runCount (sim_n (m_sim m))) = Inl e \<Longrightarrow> runSimulation m rnd = Inl (e, m)"
  by (simp add: runSimulation_def)

text \<open>What a run that returns has done.\<close>

lemma runSimulation_Inr:
  assumes "runSimulation m rnd = Inr res"
  shows "\<exists>N m' t'.
           new_Array (runCount (sim_n (m_sim m))) = Inr N
         \<and> sim_loop (baseOutValues m) (baseTreatCosts m) (baseOtherCosts m)
              (val_or (sim_variationPct (m_sim m)) 0 / 100) N
              (m, rng_init (sim_seed (m_sim m)) rnd) [] = Inr ((m', t'), res_details res)
         \<and> length (res_details res) = N
         \<and> res_model res = as_restored m
         \<and> res_npvStats res = summaryStats (map rec_npv (res_details res))
         \<and> res_bcrStats res = summaryStats (map rec_bcr (res_details res))
         \<and> res_probBcrGt1 res = probBcrGt (Num 1) (map rec_bcr (res_details res))
         \<and> res_probBcrGtTarget res
             = probBcrGt (num_or (sim_targetBCR (m_sim m)) 0) (map rec_bcr (res_details res))"
proof -
  define t0 where "t0 = rng_init (sim_seed (m_sim m)) rnd"
  define varPct where "varPct = val_or (sim_variationPct (m_sim m)) 0 / 100"
  from assms obtain N where N: "new_Array (runCount (sim_n (m_sim m))) = Inr N"
    by (cases "new_Array (runCount (sim_n (m_sim m)))") (simp_all add: runSimulation_def)
  with assms obtain m' t' details where loop:
    "sim_loop (baseOutValues m) (baseTreatCosts m) (baseOtherCosts m) varPct N (m, t0) []
       = Inr ((m', t'), details)"
    by (cases "sim_loop (baseOutValues m) (baseTreatCosts m) (baseOtherCosts m) varPct N (m, t0) []")
      (auto simp add: runSimulation_def Let_def t0_def varPct_def)
  from sim_loop_frame [OF same_frame_refl loop]
  have frame: "same_frame m m'" and len: "length details = N" by simp_all
  have written: "m'\<lparr> m_outputs := restore_outputs (baseOutValues m) (m_outputs m'),
            m_treatments := restore_treatCosts (baseTreatCosts m) (m_treatments m'),
            m_otherCosts := restore_otherCosts (baseOtherCosts m) (m_otherCosts m') \<rparr>
      = as_restored m"
    using frame
    by (cases m, cases m')
      (simp add: same_frame_def as_restored_def baseOutValues_def baseTreatCosts_def
        baseOtherCosts_def restore_outputs_frame restore_treatCosts_frame
        restore_otherCosts_frame)
  from assms N loop have "res = \<lparr> res_model = as_restored m,
      res_details = details,
      res_npvStats = summaryStats (map rec_npv details),
      res_bcrStats = summaryStats (map rec_bcr details),
      res_probBcrGt1 = probBcrGt (Num 1) (map rec_bcr details),
      res_probBcrGtTarget = probBcrGt (num_or (sim_targetBCR (m_sim m)) 0) (map rec_bcr details) \<rparr>"
    by (simp add: runSimulation_def Let_def t0_def [symmetric] varPct_def [symmetric] written)
  with N loop len show ?thesis
    by (simp add: t0_def varPct_def)
qed

text \<open>A run returns when the run count and the horizon pass the allocation of their arrays.\<close>

lemma runSimulation_returns:
  assumes "new_Array (runCount (sim_n (m_sim m))) = Inr N"
    and "new_Array (tm_years (m_time m) + Num 1) = Inr len"
  shows "\<exists>res. runSimulation m rnd = Inr res"
proof -
  from sim_loop_returns [OF same_frame_refl assms(2)]
  obtain m' t' details where
    "sim_loop (baseOutValues m) (baseTreatCosts m) (baseOtherCosts m)
       (val_or (sim_variationPct (m_sim m)) 0 / 100) N (m, rng_init (sim_seed (m_sim m)) rnd) []
     = Inr ((m', t'), details)"
    by blast
  with assms(1) show ?thesis
    by (simp add: runSimulation_def Let_def)
qed





text \<open>
  For the run counts and the horizons that pass the allocation of their arrays,
  \<^verbatim>\<open>runSimulation\<close> performs exactly max(100, n) iterations (one record each) when the
  run count \<open>n\<close> is a positive integer, and 1000 iterations when \<open>n\<close> is missing, not a
  number or zero; a run that returns has performed at least 100 iterations.
\<close>

lemma runSimulation_iteration_count:
  assumes "new_Array (tm_years (m_time m) + Num 1) = Inr len"
  shows "sim_n (m_sim m) = Some (Num (real k)) \<and> 0 < k \<and> max 100 k < 4294967296
      \<Longrightarrow> \<exists>res. runSimulation m rnd = Inr res \<and> length (res_details res) = max 100 k"
    and "sim_n (m_sim m) = None \<or> sim_n (m_sim m) = Some NaN \<or> sim_n (m_sim m) = Some (Num 0)
      \<Longrightarrow> \<exists>res. runSimulation m rnd = Inr res \<and> length (res_details res) = 1000"
proof -
  assume a: "sim_n (m_sim m) = Some (Num (real k)) \<and> 0 < k \<and> max 100 k < 4294967296"
  then have N: "new_Array (runCount (sim_n (m_sim m))) = Inr (max 100 k)"
    by (simp only: runCount_positive new_Array_nat)
  from runSimulation_returns [OF N assms, of rnd]
  obtain res where res: "runSimulation m rnd = Inr res" by blast
  from runSimulation_Inr [OF res] N have "length (res_details res) = max 100 k" by auto
  with res show "\<exists>res. runSimulation m rnd = Inr res \<and> length (res_details res) = max 100 k"
    by blast
next
  assume "sim_n (m_sim m) = None \<or> sim_n (m_sim m) = Some NaN \<or> sim_n (m_sim m) = Some (Num 0)"
  then have N: "new_Array (runCount (sim_n (m_sim m))) = Inr 1000"
    by (simp only: runCount_default) (simp add: new_Array_def)
  from runSimulation_returns [OF N assms, of rnd]
  obtain res where res: "runSimulation m rnd = Inr res" by blast
  from runSimulation_Inr [OF res] N have "length (res_details res) = 1000" by auto
  with res show "\<exists>res. runSimulation m rnd = Inr res \<and> length (res_details res) = 1000"
    by blast
qed

lemma runSimulation_at_least_100:
  assumes "runSimulation m rnd = Inr res"
  shows "100 \<le> length (res_details res)"
  using runSimulation_Inr [OF assms] new_Array_runCount by auto

text \<open>
  C10 at the run count 150.5, a positive finite number: \<^verbatim>\<open>Math.max(100, 150.5)\<close> is
  150.5, the allocation \<^verbatim>\<open>new Array(150.5)\<close> throws, and the run ends before its first
  iteration, with the model as it was.
\<close>

theorem fractional_run_count_throws:
  "sim_n (m_sim (runs_model (Some (Num (301 / 2))))) = Some (Num (301 / 2))
 \<and> runCount (Some (Num (301 / 2))) = Num (301 / 2)
 \<and> runSimulation (runs_model (Some (Num (301 / 2)))) 0
      = Inl (RangeError, runs_model (Some (Num (301 / 2))))"
proof -
  have n: "sim_n (m_sim (runs_model (Some (Num (301 / 2))))) = Some (Num (301 / 2))"
    by (simp add: runs_model_def)
  have c: "runCount (Some (Num (301 / 2))) = Num (301 / 2)"
    by (simp add: runCount_def jor_def)
  have "new_Array (Num (301 / 2)) = Inl RangeError"
    by (simp add: new_Array_def)
  with n c have "runSimulation (runs_model (Some (Num (301 / 2)))) 0
      = Inl (RangeError, runs_model (Some (Num (301 / 2))))"
    by (simp add: runSimulation_def)
  with n c show ?thesis by simp
qed

text \<open>
  With a seed other than 0 the outcome of a run does not depend on \<^verbatim>\<open>Math.random()\<close>.
\<close>

lemma runSimulation_seeded_deterministic:
  assumes "sim_seed (m_sim m) = Some s" and "s \<noteq> 0"
  shows "runSimulation m rnd1 = runSimulation m rnd2"
proof -
  have "rng_init (sim_seed (m_sim m)) rnd1 = rng_init (sim_seed (m_sim m)) rnd2"
    using assms by (simp add: rng_init_def)
  then show ?thesis
    by (simp add: runSimulation_def cong: sum.case_cong)
qed

text \<open>
  A run whose count passes the allocation and whose horizon does not throws in its first
  iteration, after the shocks of that iteration have been written; the restore is not
  reached.
\<close>

lemma sim_iter_throws:
  assumes "m_time m' = m_time m" and "new_Array (tm_years (m_time m) + Num 1) = Inl e"
  shows "\<exists>m3. sim_iter bOut bTreat bOther varPct (m', t) = Inl (e, m3)"
proof -
  have "computeAll m3 disc a r mode = Inl e" if "m_time m3 = m_time m'" for m3 disc a r mode
    using computeAll_throws [of m3 e disc a r mode] that assms by simp
  then show ?thesis
    by (simp add: sim_iter_def Let_def split: prod.splits)
qed

lemma runSimulation_throws_at_horizon:
  assumes "new_Array (runCount (sim_n (m_sim m))) = Inr N"
    and "new_Array (tm_years (m_time m) + Num 1) = Inl e"
  shows "\<exists>m3. runSimulation m rnd = Inl (e, m3) \<and> same_frame m m3"
proof -
  define t0 where "t0 = rng_init (sim_seed (m_sim m)) rnd"
  define varPct where "varPct = val_or (sim_variationPct (m_sim m)) 0 / 100"
  from new_Array_runCount [OF assms(1)] obtain k where k: "N = Suc k" by (cases N) auto
  from sim_iter_throws [OF refl assms(2)]
  obtain m3 where it:
    "sim_iter (baseOutValues m) (baseTreatCosts m) (baseOtherCosts m) varPct (m, t0) = Inl (e, m3)"
    by blast
  with sim_iter_frame [OF same_frame_refl, of m varPct t0] have "same_frame m m3"
    by simp
  moreover from it assms(1) have "runSimulation m rnd = Inl (e, m3)"
    by (simp add: runSimulation_def Let_def k t0_def varPct_def)
  ultimately show ?thesis by blast
qed

text \<open>
  The engine reads the six fields with \<^verbatim>\<open>Number(x) || 0\<close> only: the numbers the restore
  writes change no evaluation.
\<close>

lemma valuePerHa_restored:
  "valuePerHa (map (\<lambda>o'. o'\<lparr> o_value := restored_value (o_value o') \<rparr>) outs)
     (t\<lparr> t_materialsCost := a, t_servicesCost := b, t_labourCost := c \<rparr>) = valuePerHa outs t"
proof -
  have "fold (\<lambda>o' acc. acc + delta_of (t\<lparr> t_materialsCost := a, t_servicesCost := b, t_labourCost := c \<rparr>) o'
            * number_or (o_value o') (Num 0))
          (map (\<lambda>o'. o'\<lparr> o_value := restored_value (o_value o') \<rparr>) outs) x
      = fold (\<lambda>o' acc. acc + delta_of t o' * number_or (o_value o') (Num 0)) outs x" for x
    by (induction outs arbitrary: x) (simp_all add: delta_of_def number_or_restored_value)
  then show ?thesis by (simp add: valuePerHa_def)
qed

lemma treatment_item_restored:
  "treatment_item (map (\<lambda>o'. o'\<lparr> o_value := restored_value (o_value o') \<rparr>) outs) adoptMul risk
     (t\<lparr> t_materialsCost := restored_value (t_materialsCost t),
        t_servicesCost := restored_value (t_servicesCost t),
        t_labourCost := restored_value (t_labourCost t) \<rparr>)
   = treatment_item outs adoptMul risk t"
  by (rule ext)
    (simp add: treatment_item_def valuePerHa_restored annualCostPerHa_def
      number_or_restored_value Let_def)

lemma otherCost_item_restored:
  "otherCost_item N baseYear
     (c\<lparr> c_annual := restored_value (c_annual c), c_capital := restored_value (c_capital c) \<rparr>)
   = otherCost_item N baseYear c"
  by (rule ext) (simp add: otherCost_item_def number_or_restored_value Let_def cong: if_cong)

lemma buildCashflows_as_restored:
  "buildCashflows (as_restored m) adoptMul risk = buildCashflows m adoptMul risk"
proof -
  have a: "fold (treatment_item (m_outputs (as_restored m)) adoptMul risk)
             (m_treatments (as_restored m))
      = fold (treatment_item (m_outputs m) adoptMul risk) (m_treatments m)"
    by (simp add: as_restored_def fold_map comp_def treatment_item_restored)
  have b: "fold (otherCost_item N baseYear) (m_otherCosts (as_restored m))
      = fold (otherCost_item N baseYear) (m_otherCosts m)" for N baseYear
    by (simp add: as_restored_def fold_map comp_def otherCost_item_restored)
  have c: "m_time (as_restored m) = m_time m" "m_benefits (as_restored m) = m_benefits m"
    by (simp_all add: as_restored_def)
  show ?thesis
    unfolding buildCashflows_def a b c ..
qed

lemma computeAll_as_restored:
  "computeAll (as_restored m) rate adoptMul risk bcrMode = computeAll m rate adoptMul risk bcrMode"
proof -
  have "m_time (as_restored m) = m_time m" by (simp add: as_restored_def)
  then show ?thesis
    by (simp add: computeAll_def buildCashflows_as_restored cong: sum.case_cong)
qed

section \<open>The seed 0\<close>

text \<open>
  \<^verbatim>\<open>rng(0)\<close> takes its state from \<^verbatim>\<open>Math.random()\<close>, as \<^verbatim>\<open>rng(undefined)\<close> does.
  The first two values of the generator from the states 0 and \<open>2 ^ 30\<close>:
\<close>

lemma rng_next_0: "rng_next 0 = (1144304738 / 4294967296, 1831565813)"
  by (simp add: rng_next_def imul_def Let_def)

lemma rng_next_2p30: "rng_next 1073741824 = (2662121742 / 4294967296, 2905307637)"
  by (simp add: rng_next_def imul_def Let_def)

lemma hd_res_details:
  assumes "runSimulation m rnd = Inr res"
  shows "\<exists>st. sim_iter (baseOutValues m) (baseTreatCosts m) (baseOtherCosts m)
            (val_or (sim_variationPct (m_sim m)) 0 / 100) (m, rng_init (sim_seed (m_sim m)) rnd)
          = Inr (st, hd (res_details res))"
proof -
  define t0 where "t0 = rng_init (sim_seed (m_sim m)) rnd"
  define varPct where "varPct = val_or (sim_variationPct (m_sim m)) 0 / 100"
  from runSimulation_Inr [OF assms]
  obtain N m' t' where N: "new_Array (runCount (sim_n (m_sim m))) = Inr N"
    and loop: "sim_loop (baseOutValues m) (baseTreatCosts m) (baseOtherCosts m) varPct N (m, t0) []
        = Inr ((m', t'), res_details res)"
    by (auto simp add: t0_def varPct_def)
  from new_Array_runCount [OF N] obtain k where k: "N = Suc k" by (cases N) auto
  show ?thesis
  proof (cases "sim_iter (baseOutValues m) (baseTreatCosts m) (baseOtherCosts m) varPct (m, t0)")
    case (Inl thrown)
    with loop k show ?thesis by simp
  next
    case (Inr ok)
    obtain st r where ok: "ok = (st, r)" by (cases ok)
    with loop k Inr
    have "sim_loop (baseOutValues m) (baseTreatCosts m) (baseOtherCosts m) varPct k st [r]
        = Inr ((m', t'), res_details res)"
      by simp
    from sim_loop_extends [OF this] have "hd (res_details res) = r" by auto
    with Inr ok show ?thesis by (simp add: t0_def varPct_def)
  qed
qed

lemma disc_sim_iter:
  assumes "sim_iter bOut bTreat bOther varPct (m, t) = Inr (st, r)"
  shows "rec_discountRatePct r =
     triangular (Num (fst (rng_next t))) (Num (tm_discLow (m_time m)))
       (Num (tm_discBase (m_time m))) (Num (tm_discHigh (m_time m)))"
  using assms
  by (auto simp add: sim_iter_def Let_def split: prod.splits sum.splits)

text \<open>
  C8 at the seed 0: two runs of the same model with the seed 0, one with
  \<^verbatim>\<open>Math.random()\<close> returning 0 and one with it returning 1/2, draw different discount
  rates in their first iteration, and their records differ.
\<close>

theorem seed_zero_runs_differ:
  "\<exists>run1 run2.
     runSimulation seed_zero_model 0 = Inr run1
   \<and> runSimulation seed_zero_model (1 / 2) = Inr run2
   \<and> rec_discountRatePct (hd (res_details run1))
       = Num (4 + sqrt (1144304738 / 4294967296 * 6 * 3))
   \<and> rec_discountRatePct (hd (res_details run2))
       = Num (10 - sqrt ((1 - 2662121742 / 4294967296) * 6 * 3))
   \<and> res_details run1 \<noteq> res_details run2"
proof -
  have "new_Array (runCount (sim_n (m_sim seed_zero_model))) = Inr 1000"
    "new_Array (tm_years (m_time seed_zero_model) + Num 1) = Inr 2"
    by (simp_all add: seed_zero_model_def scenario_model_def runCount_def jor_def new_Array_def)
  from runSimulation_returns [OF this, of 0] runSimulation_returns [OF this, of "1 / 2"]
  obtain run1 run2 where r1: "runSimulation seed_zero_model 0 = Inr run1"
    and r2: "runSimulation seed_zero_model (1 / 2) = Inr run2"
    by blast
  from hd_res_details [OF r1] obtain st1 where
    "sim_iter (baseOutValues seed_zero_model) (baseTreatCosts seed_zero_model)
       (baseOtherCosts seed_zero_model) (val_or (sim_variationPct (m_sim seed_zero_model)) 0 / 100)
       (seed_zero_model, rng_init (sim_seed (m_sim seed_zero_model)) 0)
     = Inr (st1, hd (res_details run1))" ..
  from disc_sim_iter [OF this]
  have a: "rec_discountRatePct (hd (res_details run1))
     = Num (4 + sqrt (1144304738 / 4294967296 * 6 * 3))"
    by (simp add: seed_zero_model_def scenario_model_def
        rng_init_def rng_next_0 triangular_def Let_def minus_jsnum_def)
  from hd_res_details [OF r2] obtain st2 where
    "sim_iter (baseOutValues seed_zero_model) (baseTreatCosts seed_zero_model)
       (baseOtherCosts seed_zero_model) (val_or (sim_variationPct (m_sim seed_zero_model)) 0 / 100)
       (seed_zero_model, rng_init (sim_seed (m_sim seed_zero_model)) (1 / 2))
     = Inr (st2, hd (res_details run2))" ..
  from disc_sim_iter [OF this]
  have b: "rec_discountRatePct (hd (res_details run2))
     = Num (10 - sqrt ((1 - 2662121742 / 4294967296) * 6 * 3))"
    by (simp add: seed_zero_model_def scenario_model_def
        rng_init_def rng_next_2p30 triangular_def Let_def minus_jsnum_def)
  have "sqrt (1144304738 / 4294967296 * 6 * 3) < sqrt 9"
    by (subst real_sqrt_less_iff) simp
  moreover have "sqrt ((1 - 2662121742 / 4294967296) * 6 * 3) < sqrt 9"
    by (subst real_sqrt_less_iff) simp
  moreover have "sqrt 9 = 3"
    using real_sqrt_abs [of 3] by simp
  ultimately have "4 + sqrt (1144304738 / 4294967296 * 6 * 3)
      \<noteq> 10 - sqrt ((1 - 2662121742 / 4294967296) * 6 * 3)"
    by linarith
  with a b have "rec_discountRatePct (hd (res_details run1))
     \<noteq> rec_discountRatePct (hd (res_details run2))"
    by simp
  then have "res_details run1 \<noteq> res_details run2"
    by auto
  with r1 r2 a b show ?thesis by blast
qed

section \<open>The root finder follows its description\<close>

text \<open>
  The function \<^verbatim>\<open>npvAt\<close> of \<^verbatim>\<open>irr\<close> computes the net present value; on a series of
  finite flows and at a rate other than -1 that is the number of the formula.
\<close>

lemma jadd_zero_right: "(a :: jsnum) + Num 0 = a"
  by (cases a) simp_all

lemma fold_add_npv_from:
  "fold (\<lambda>t acc. acc + (pre @ cs) ! t / jpow (Num 1 + r) t)
     [length pre..<length pre + length cs] a
     = a + npv_from cs r (length pre)"
proof (induction cs arbitrary: pre a)
  case Nil
  then show ?case by (simp add: jadd_zero_right)
next
  case (Cons c cs)
  define F where "F = (\<lambda>t acc. acc + (pre @ c # cs) ! t / jpow (Num 1 + r) t)"
  have "length pre < length pre + length (c # cs)" by simp
  then have "[length pre..<length pre + length (c # cs)]
      = length pre # [Suc (length pre)..<length pre + length (c # cs)]"
    by (rule upt_conv_Cons)
  then have upt: "[length pre..<length pre + length (c # cs)]
      = length pre # [length (pre @ [c])..<length (pre @ [c]) + length cs]"
    by simp
  have first: "F (length pre) a = a + c / jpow (Num 1 + r) (length pre)"
    by (simp add: F_def)
  have later: "F = (\<lambda>t acc. acc + ((pre @ [c]) @ cs) ! t / jpow (Num 1 + r) t)"
    by (simp add: F_def)
  have "fold F [length pre..<length pre + length (c # cs)] a
      = fold F [length (pre @ [c])..<length (pre @ [c]) + length cs] (F (length pre) a)"
    by (simp only: upt fold_simps)
  also have "\<dots> = fold F [length (pre @ [c])..<length (pre @ [c]) + length cs]
                      (a + c / jpow (Num 1 + r) (length pre))"
    by (simp only: first)
  also have "\<dots> = (a + c / jpow (Num 1 + r) (length pre)) + npv_from cs r (length (pre @ [c]))"
    unfolding later by (rule Cons.IH)
  also have "\<dots> = a + npv_from (c # cs) r (length pre)"
    by (simp add: jadd_assoc)
  finally show ?case by (simp only: F_def)
qed

lemma npvAt_NPV: "npvAt cfs r = NPV cfs r"
proof -
  have "Num 0 + x = x" for x :: jsnum
    by (cases x) simp_all
  with fold_add_npv_from [of "[]" cfs r "Num 0"] show ?thesis
    by (simp add: npvAt_def NPV_def)
qed

lemma jpow_Num: "jpow (Num a) t = Num (a ^ t)"
  by (cases t) simp_all

lemma npv_from_formula:
  assumes "1 + r \<noteq> 0"
  shows "npv_from (map Num vs) (Num r) k = Num (\<Sum>i<length vs. vs ! i / (1 + r) ^ (k + i))"
proof (induction vs arbitrary: k)
  case Nil
  then show ?case by simp
next
  case (Cons v vs)
  have "(\<Sum>i<Suc (length vs). (v # vs) ! i / (1 + r) ^ (k + i))
      = (v # vs) ! 0 / (1 + r) ^ (k + 0)
        + (\<Sum>i<length vs. (v # vs) ! Suc i / (1 + r) ^ (k + Suc i))"
    by (rule sum.lessThan_Suc_shift)
  then have "(\<Sum>i<length (v # vs). (v # vs) ! i / (1 + r) ^ (k + i))
      = v / (1 + r) ^ k + (\<Sum>i<length vs. vs ! i / (1 + r) ^ (Suc k + i))"
    by simp
  with Cons [of "Suc k"] assms show ?case
    by (simp add: jpow_Num)
qed

lemma NPV_formula:
  assumes "1 + r \<noteq> 0"
  shows "NPV (map Num vs) (Num r) = Num (\<Sum>t<length vs. vs ! t / (1 + r) ^ t)"
  using npv_from_formula [OF assms, of vs 0] by (simp add: NPV_def)

text \<open>The two loops of \<^verbatim>\<open>irr\<close>, as searches in the sequences of the description.\<close>

lemma map_funpow_upt_Suc:
  "map (\<lambda>j. (f ^^ j) x) [0..<Suc k] = x # map (\<lambda>j. (f ^^ j) (f x)) [0..<k]"
proof -
  have "map (\<lambda>j. (f ^^ j) x) [0..<Suc k] = x # map (\<lambda>j. (f ^^ j) x) (map Suc [0..<k])"
    by (simp add: upt_conv_Cons map_Suc_upt del: upt_Suc)
  also have "map (\<lambda>j. (f ^^ j) x) (map Suc [0..<k]) = map (\<lambda>j. (f ^^ j) (f x)) [0..<k]"
    by (simp add: funpow_swap1)
  finally show ?thesis .
qed

lemma find_funpow_Suc:
  "find P (map (\<lambda>j. (f ^^ j) x) [0..<Suc k]) =
     (if P x then Some x else find P (map (\<lambda>j. (f ^^ j) (f x)) [0..<k]))"
  by (simp only: map_funpow_upt_Suc find.simps)

lemma find_snoc:
  "find P (xs @ [x]) =
     (case find P xs of Some y \<Rightarrow> Some y | None \<Rightarrow> if P x then Some x else None)"
  by (induction xs) simp_all

lemma funpow_Suc_apply: "(f ^^ Suc k) x = (f ^^ k) (f x)"
  by (simp add: funpow_swap1)

lemma irr_expand_Suc:
  "irr_expand cfs nLo (Suc k) hi nHi =
     (if jgt (nLo * nHi) (Num 0) then irr_expand cfs nLo k (grow hi) (NPV cfs (grow hi))
      else (hi, nHi))"
  by (simp add: grow_def npvAt_NPV)

lemma irr_expand_find:
  "irr_expand cfs nLo k hi (NPV cfs hi) =
     (case find (\<lambda>h. \<not> jgt (nLo * NPV cfs h) (Num 0)) (map (\<lambda>j. (grow ^^ j) hi) [0..<k]) of
        Some h \<Rightarrow> (h, NPV cfs h)
      | None \<Rightarrow> ((grow ^^ k) hi, NPV cfs ((grow ^^ k) hi)))"
proof (induction k arbitrary: hi)
  case 0
  then show ?case by simp
next
  case (Suc k)
  show ?case
    by (cases "jgt (nLo * NPV cfs hi) (Num 0)")
      (simp_all only: irr_expand_Suc find_funpow_Suc funpow_Suc_apply Suc [of "grow hi"]
        simp_thms if_True if_False option.case)
qed

lemma irr_bisect_Suc:
  "irr_bisect cfs (Suc i) lo hi (NPV cfs lo) =
     (if within_tolerance cfs (lo, hi) then midpoint (lo, hi) * Num 100
      else irr_bisect cfs i (fst (bisect_step cfs (lo, hi))) (snd (bisect_step cfs (lo, hi)))
             (NPV cfs (fst (bisect_step cfs (lo, hi)))))"
  by (simp add: Let_def within_tolerance_def midpoint_def bisect_step_def npvAt_NPV)

lemma irr_bisect_find:
  "irr_bisect cfs k lo hi (NPV cfs lo) =
     (case find (within_tolerance cfs) (map (\<lambda>j. (bisect_step cfs ^^ j) (lo, hi)) [0..<k]) of
        Some br \<Rightarrow> midpoint br * Num 100
      | None \<Rightarrow> midpoint ((bisect_step cfs ^^ k) (lo, hi)) * Num 100)"
proof (induction k arbitrary: lo hi)
  case 0
  then show ?case by (simp add: midpoint_def)
next
  case (Suc k)
  obtain lo' hi' where st: "bisect_step cfs (lo, hi) = (lo', hi')"
    by (cases "bisect_step cfs (lo, hi)")
  show ?case
    by (cases "within_tolerance cfs (lo, hi)")
      (simp_all only: irr_bisect_Suc find_funpow_Suc funpow_Suc_apply st fst_conv snd_conv
        Suc [of lo' hi'] simp_thms if_True if_False option.case)
qed

text \<open>
  C4, as amended. For every net cash-flow series, \<^verbatim>\<open>irr\<close> returns what the description
  \<open>irr_spec\<close> gives: \<^verbatim>\<open>NaN\<close> when no flow is above 0 or no flow is below 0; otherwise,
  from the bracket [-0.99, 5], the upper bound is multiplied by 1.5 at most 20 times while
  the product of the net present values at the two bounds is above 0, and the result is
  \<^verbatim>\<open>NaN\<close> when it still is after the 20th; with a bracket, the bisection runs at most
  80 iterations, stops early when the net present value at the midpoint is below 1e-8 in
  absolute value, and returns 100 times the midpoint.
\<close>

theorem irr_follows_description: "irr cfs = irr_spec cfs"
proof (cases "\<not> list_ex (\<lambda>v. jgt v (Num 0)) cfs \<or> \<not> list_ex (\<lambda>v. jlt v (Num 0)) cfs")
  case True
  then show ?thesis
    by (simp add: irr_def irr_spec_def Let_def)
next
  case False
  let ?lo = "Num (- (99 / 100))"
  define g where "g = (\<lambda>k. (grow ^^ k) (Num 5))"
  define Q where "Q = (\<lambda>nHi. jgt (NPV cfs ?lo * nHi) (Num 0))"
  define P where "P = (\<lambda>hi. \<not> Q (NPV cfs hi))"
  have g0: "g 0 = Num 5" by (simp add: g_def)
  have split21: "find P (map g [0..<21]) =
      (case find P (map g [0..<20]) of Some h \<Rightarrow> Some h
       | None \<Rightarrow> if P (g 20) then Some (g 20) else None)"
  proof -
    have "[0..<21] = [0..<20] @ [20::nat]"
      using upt_Suc_append [of 0 20] by simp
    then show ?thesis by (simp add: find_snoc)
  qed
  have head: "find P (map g [0..<21]) = Some (Num 5)" if "P (Num 5)"
  proof -
    have "map g [0..<21] = Num 5 # map g [1..<21]"
      by (simp add: upt_conv_Cons g0)
    with that show ?thesis by simp
  qed
  have code: "irr cfs =
      (if P (Num 5) then irr_bisect cfs 80 ?lo (Num 5) (NPV cfs ?lo)
       else (case irr_expand cfs (NPV cfs ?lo) 20 (Num 5) (NPV cfs (Num 5)) of
               (hi', nHi') \<Rightarrow> if Q nHi' then NaN
                                else irr_bisect cfs 80 ?lo hi' (NPV cfs ?lo)))"
    using False
    by (simp add: irr_def Let_def P_def Q_def npvAt_NPV)
  have spec: "irr_spec cfs =
      (case find P (map g [0..<21]) of None \<Rightarrow> NaN | Some hi \<Rightarrow> bisect_spec cfs ?lo hi)"
    using False by (simp add: irr_spec_def irr_search_def P_def Q_def g_def)
  have expand: "irr_expand cfs (NPV cfs ?lo) 20 (Num 5) (NPV cfs (Num 5)) =
      (case find P (map g [0..<20]) of
         Some h \<Rightarrow> (h, NPV cfs h) | None \<Rightarrow> (g 20, NPV cfs (g 20)))"
    unfolding P_def Q_def g_def by (rule irr_expand_find)
  have bis: "irr_bisect cfs 80 ?lo hi (NPV cfs ?lo) = bisect_spec cfs ?lo hi" for hi
    unfolding bisect_spec_def by (rule irr_bisect_find)
  have PQ: "Q (NPV cfs hi) = (\<not> P hi)" for hi
    by (simp add: P_def)
  show ?thesis
  proof (cases "P (Num 5)")
    case True
    then show ?thesis
      by (simp only: code spec head [OF True] bis if_True option.case)
  next
    case notP: False
    show ?thesis
    proof (cases "find P (map g [0..<20])")
      case None
      show ?thesis
      proof (cases "P (g 20)")
        case True
        then show ?thesis
          using notP
          by (simp only: code spec split21 expand None bis PQ option.case if_True if_False
              prod.case simp_thms)
      next
        case False
        then show ?thesis
          using notP
          by (simp only: code spec split21 expand None bis PQ option.case if_True if_False
              prod.case simp_thms)
      qed
    next
      case (Some h)
      then have "P h" by (metis find_Some_iff)
      then show ?thesis
        using notP
        by (simp only: code spec split21 expand Some bis PQ option.case if_True if_False
            prod.case simp_thms)
    qed
  qed
qed

text \<open>
  The flows -1 and 6.3775. The net present values at -0.99 and at 5 are both above 0, so
  the upper bound grows to 7.5, where the value is below 0. The first midpoint 3.255 has a
  value above 0 and the upper half is kept; at the second midpoint 5.3775 the value is 0,
  so the rate is 537.75 percent.
\<close>

lemma irr_example: "irr [Num (- 1), Num (2551 / 400)] = Num (2151 / 4)"
proof -
  let ?cfs = "[Num (- 1), Num (2551 / 400)]"
  have lo: "npvAt ?cfs (Num (- (99 / 100))) = Num (2547 / 4)"
    by (simp add: npvAt_def upt_rec)
  have hi: "npvAt ?cfs (Num 5) = Num (151 / 2400)"
    by (simp add: npvAt_def upt_rec)
  have hi2: "npvAt ?cfs (Num (15 / 2)) = Num (- (849 / 3400))"
    by (simp add: npvAt_def upt_rec)
  have mid1: "npvAt ?cfs (Num (651 / 200)) = Num (849 / 1702)"
    by (simp add: npvAt_def upt_rec)
  have mid2: "npvAt ?cfs (Num (2151 / 400)) = Num 0"
    by (simp add: npvAt_def upt_rec)
  have expand: "irr_expand ?cfs (Num (2547 / 4)) (Suc (Suc 18)) (Num 5) (Num (151 / 2400))
      = (Num (15 / 2), Num (- (849 / 3400)))"
    by (simp only: irr_expand.simps) (simp add: hi2 jgt_def)
  have "irr_bisect ?cfs (Suc (Suc 78)) (Num (- (99 / 100))) (Num (15 / 2)) (Num (2547 / 4))
      = Num (2151 / 4)"
    by (simp only: irr_bisect.simps Let_def) (simp add: mid1 mid2)
  moreover have "Suc (Suc 78) = 80" "Suc (Suc 18) = 20" by simp_all
  ultimately show ?thesis
    using expand by (simp add: irr_def Let_def lo hi jgt_def)
qed

theorem irr_follows_description_witness:
  "irr_spec [Num (- 1), Num (2551 / 400)] = Num (2151 / 4)"
  using irr_follows_description [of "[Num (- 1), Num (2551 / 400)]"] irr_example by simp

text \<open>
  With a bracket of numbers the search of the description ends in a number, whatever the
  net present values are.
\<close>

lemma midpoint_Num: "midpoint (Num a, Num b) = Num ((a + b) / 2)"
  by (simp add: midpoint_def)

lemma bisect_step_numbers:
  "\<exists>a' b'. (bisect_step cfs ^^ j) (Num a, Num b) = (Num a', Num b')"
proof (induction j)
  case 0
  then show ?case by simp
next
  case (Suc j)
  then obtain a' b' where "(bisect_step cfs ^^ j) (Num a, Num b) = (Num a', Num b')"
    by blast
  then have "(bisect_step cfs ^^ Suc j) (Num a, Num b) = bisect_step cfs (Num a', Num b')"
    by simp
  moreover have "\<exists>a'' b''. bisect_step cfs (Num a', Num b') = (Num a'', Num b'')"
  proof (cases "jle (NPV cfs (Num a') * NPV cfs (midpoint (Num a', Num b'))) (Num 0)")
    case True
    then have "bisect_step cfs (Num a', Num b') = (Num a', Num ((a' + b') / 2))"
      by (simp only: bisect_step_def fst_conv snd_conv if_True midpoint_Num)
    then show ?thesis by blast
  next
    case False
    then have "bisect_step cfs (Num a', Num b') = (Num ((a' + b') / 2), Num b')"
      by (simp only: bisect_step_def fst_conv snd_conv if_False midpoint_Num)
    then show ?thesis by blast
  qed
  ultimately show ?case by metis
qed

lemma bisect_spec_number: "isFinite (bisect_spec cfs (Num a) (Num b))"
proof -
  have fin: "isFinite (midpoint ((bisect_step cfs ^^ j) (Num a, Num b)) * Num 100)" for j
    using bisect_step_numbers [where cfs = cfs and j = j and a = a and b = b]
    by (auto simp add: midpoint_Num)
  show ?thesis
  proof (cases "find (within_tolerance cfs)
      (map (\<lambda>j. (bisect_step cfs ^^ j) (Num a, Num b)) [0..<80])")
    case None
    with fin [of 80] show ?thesis by (simp add: bisect_spec_def)
  next
    case (Some br)
    then have "br \<in> set (map (\<lambda>j. (bisect_step cfs ^^ j) (Num a, Num b)) [0..<80])"
      by (auto simp add: find_Some_iff in_set_conv_nth simp del: upt_Suc map_map)
    then obtain j where "br = (bisect_step cfs ^^ j) (Num a, Num b)"
      by auto
    with fin [of j] Some show ?thesis by (simp add: bisect_spec_def)
  qed
qed

text \<open>
  C4 as stated fails on a series with a flow that is not a number: the flows \<^verbatim>\<open>NaN\<close> and
  1 are neither all at least 0 nor all at most 0, and the product of the net present
  values at -0.99 and at 5 is not above 0, so that the description of the claim bisects
  the bracket [-0.99, 5] and ends in a number; \<^verbatim>\<open>irr\<close> finds no flow below 0 and returns
  \<^verbatim>\<open>NaN\<close>.
\<close>

theorem nan_flow_counterexample:
  "\<not> list_all (\<lambda>v. jge v (Num 0)) [NaN, Num 1]
 \<and> \<not> list_all (\<lambda>v. jle v (Num 0)) [NaN, Num 1]
 \<and> isFinite (irr_claimed [NaN, Num 1])
 \<and> irr [NaN, Num 1] = NaN"
proof -
  have "NPV [NaN, Num 1] r = NaN" for r
    by (simp add: NPV_def)
  then have "irr_search [NaN, Num 1] = bisect_spec [NaN, Num 1] (Num (- (99 / 100))) (Num 5)"
    by (simp add: irr_search_def upt_conv_Cons jgt_def del: upt_Suc)
  with bisect_spec_number [of "[NaN, Num 1]" "- (99 / 100)" 5]
  have "isFinite (irr_claimed [NaN, Num 1])"
    by (simp add: irr_claimed_def jge_def)
  moreover have "irr [NaN, Num 1] = NaN"
    by (simp add: irr_def Let_def)
  ultimately show ?thesis
    by (simp add: jge_def)
qed

section \<open>Summary statistics of a simulation\<close>

lemma finite_vals_filter: "finite_vals (filter isFinite arr) = finite_vals arr"
proof (induction arr)
  case Nil
  then show ?case by simp
next
  case (Cons a arr)
  then show ?case by (cases a) simp_all
qed

lemma finite_vals_count:
  "length (filter (\<lambda>v. isFinite v \<and> jgt v (Num x)) arr)
     = length (filter (\<lambda>a. x < a) (finite_vals arr))"
proof (induction arr)
  case Nil
  then show ?case by simp
next
  case (Cons a arr)
  then show ?case by (cases a) (simp_all add: jgt_def)
qed

lemma length_finite_vals: "length (finite_vals arr) \<le> length arr"
proof (induction arr)
  case Nil
  then show ?case by simp
next
  case (Cons a arr)
  then show ?case by (cases a) simp_all
qed

lemma sorted_first_Min:
  fixes xs :: "real list"
  assumes "sorted xs" and "xs \<noteq> []"
  shows "xs ! 0 = Min (set xs)"
proof -
  obtain y ys where xs: "xs = y # ys" using assms(2) by (cases xs) auto
  with assms(1) have "\<forall>z \<in> set xs. y \<le> z" by auto
  then have "Min (set xs) = y"
    using xs by (intro Min_eqI) auto
  with xs show ?thesis by simp
qed

lemma sorted_last_Max:
  fixes xs :: "real list"
  assumes "sorted xs" and "xs \<noteq> []"
  shows "xs ! (length xs - 1) = Max (set xs)"
proof -
  have "z \<le> xs ! (length xs - 1)" if "z \<in> set xs" for z
  proof -
    from that obtain i where "i < length xs" "xs ! i = z"
      by (auto simp add: in_set_conv_nth)
    with assms(1) show ?thesis
      using sorted_nth_mono [of xs i "length xs - 1"] by auto
  qed
  moreover have "xs ! (length xs - 1) \<in> set xs"
    using assms(2) by simp
  ultimately show ?thesis
    by (intro Max_eqI [symmetric]) auto
qed

lemma sum_list_insort: "sum_list (insort x xs) = x + sum_list (xs :: real list)"
  by (induction xs) simp_all

lemma sum_list_sort: "sum_list (sort xs) = sum_list (xs :: real list)"
  by (induction xs) (simp_all add: sum_list_insort)

lemma foldl_plus_sum_list: "foldl (+) a xs = a + sum_list (xs :: real list)"
  by (induction xs arbitrary: a) simp_all

text \<open>
  C7, as amended. For every result set, the minimum, maximum, mean, median and
  probability of a positive value that \<^verbatim>\<open>summaryStats\<close> reports are computed over the
  finite results only (all five are \<^verbatim>\<open>NaN\<close> when there is none): the non-finite
  results do not enter them. The probability that the ratio exceeds a threshold \<open>x\<close>
  (1.0, or the configured target) counts the finite results above \<open>x\<close> and divides by the
  number of all runs, the non-finite ones included.
\<close>

theorem summary_statistics:
  "summaryStats arr = summaryStats (filter isFinite arr)
 \<and> (if finite_vals arr = []
     then summaryStats arr =
            \<lparr> st_min = NaN, st_max = NaN, st_mean = NaN, st_median = NaN, st_probPos = NaN \<rparr>
     else st_min (summaryStats arr) = Num (Min (set (finite_vals arr)))
        \<and> st_max (summaryStats arr) = Num (Max (set (finite_vals arr)))
        \<and> st_mean (summaryStats arr)
            = Num (sum_list (finite_vals arr) / real (length (finite_vals arr)))
        \<and> st_median (summaryStats arr)
            = Num (if even (length (finite_vals arr))
                   then (sort (finite_vals arr) ! (length (finite_vals arr) div 2 - 1)
                         + sort (finite_vals arr) ! (length (finite_vals arr) div 2)) / 2
                   else sort (finite_vals arr) ! (length (finite_vals arr) div 2))
        \<and> st_probPos (summaryStats arr)
            = Num (real (length (filter (\<lambda>v. 0 < v) (finite_vals arr)))
                   / real (length (finite_vals arr))))
 \<and> probBcrGt (Num x) arr
     = Num (real (length (filter (\<lambda>v. x < v) (finite_vals arr))) / real (length arr))"
proof -
  define xs where "xs = finite_vals arr"
  have one: "summaryStats arr = summaryStats (filter isFinite arr)"
    by (simp add: summaryStats_def finite_vals_filter)
  have two: "summaryStats arr =
      \<lparr> st_min = NaN, st_max = NaN, st_mean = NaN, st_median = NaN, st_probPos = NaN \<rparr>"
    if "xs = []"
    using that by (simp add: summaryStats_def xs_def)
  have three: "st_min (summaryStats arr) = Num (Min (set xs))"
    "st_max (summaryStats arr) = Num (Max (set xs))"
    "st_mean (summaryStats arr) = Num (sum_list xs / real (length xs))"
    "st_median (summaryStats arr)
       = Num (if even (length xs)
              then (sort xs ! (length xs div 2 - 1) + sort xs ! (length xs div 2)) / 2
              else sort xs ! (length xs div 2))"
    "st_probPos (summaryStats arr)
       = Num (real (length (filter (\<lambda>v. 0 < v) xs)) / real (length xs))"
    if ne: "xs \<noteq> []"
  proof -
    have s: "sorted (sort xs)" "sort xs \<noteq> []" "set (sort xs) = set xs"
      "length (sort xs) = length xs"
    proof -
      show "sorted (sort xs)" by simp
      show "set (sort xs) = set xs" by simp
      show "length (sort xs) = length xs" by simp
      then show "sort xs \<noteq> []" using ne by (metis length_0_conv)
    qed
    have len: "length xs \<noteq> 0" "sort xs \<noteq> []" using ne s(2) by simp_all
    show "st_min (summaryStats arr) = Num (Min (set xs))"
      using sorted_first_Min [OF s(1,2)] len
      by (simp add: summaryStats_def Let_def xs_def [symmetric] s(3))
    show "st_max (summaryStats arr) = Num (Max (set xs))"
      using sorted_last_Max [OF s(1,2)] len
      by (simp add: summaryStats_def Let_def xs_def [symmetric] s(3))
    show "st_mean (summaryStats arr) = Num (sum_list xs / real (length xs))"
      using len
      by (simp add: summaryStats_def Let_def xs_def [symmetric] foldl_plus_sum_list sum_list_sort)
    show "st_median (summaryStats arr)
       = Num (if even (length xs)
              then (sort xs ! (length xs div 2 - 1) + sort xs ! (length xs div 2)) / 2
              else sort xs ! (length xs div 2))"
      using len
      by (simp add: summaryStats_def Let_def xs_def [symmetric] even_iff_mod_2_eq_zero)
    have "length (filter (\<lambda>v. 0 < v) (sort xs)) = length (filter (\<lambda>v. 0 < v) xs)"
      by (simp add: filter_sort)
    then show "st_probPos (summaryStats arr)
       = Num (real (length (filter (\<lambda>v. 0 < v) xs)) / real (length xs))"
      using len
      by (simp add: summaryStats_def Let_def xs_def [symmetric])
  qed
  have four: "probBcrGt (Num x) arr
     = Num (real (length (filter (\<lambda>v. x < v) xs)) / real (length arr))"
  proof (cases "arr = []")
    case True
    then show ?thesis by (simp add: probBcrGt_def jor_def xs_def)
  next
    case False
    then show ?thesis
      by (simp add: probBcrGt_def jor_def xs_def finite_vals_count)
  qed
  show ?thesis
    using one two three four unfolding xs_def by simp
qed

text \<open>
  C7 as stated fails for the two exceedance probabilities: with the ratios 2 and
  \<^verbatim>\<open>NaN\<close> the probability of exceeding 1 is reported as 1/2, whereas over the finite
  results only it is 1.
\<close>

theorem bcr_probability_counterexample:
  "probBcrGt (Num 1) [Num 2, NaN] = Num (1 / 2)
 \<and> probBcrGt (Num 1) (filter isFinite [Num 2, NaN]) = Num 1"
  by (simp add: probBcrGt_def jor_def jgt_def)

section \<open>The control of a trial table\<close>

text \<open>The names in the order of their first appearance.\<close>

lemma fold_add_name_set: "set (fold add_name ns ks) = set ks \<union> set ns"
  by (induction ns arbitrary: ks) (auto simp add: add_name_def)

lemma fold_add_name_distinct: "distinct ks \<Longrightarrow> distinct (fold add_name ns ks)"
  by (induction ns arbitrary: ks) (simp_all add: add_name_def)

lemma fold_add_name_hd: "ks \<noteq> [] \<Longrightarrow> hd (fold add_name ns ks) = hd ks"
  by (induction ns arbitrary: ks) (simp_all add: add_name_def)

lemma appearances_set: "set (appearances ns) = set ns"
  by (simp add: appearances_def fold_add_name_set)

lemma appearances_distinct: "distinct (appearances ns)"
  by (simp add: appearances_def fold_add_name_distinct)

lemma appearances_hd: "ns \<noteq> [] \<Longrightarrow> hd (appearances ns) = hd ns"
  by (cases ns) (simp_all add: appearances_def add_name_def fold_add_name_hd)

text \<open>
  The loop over the rows: the keys of the table are the names in the order of their first
  appearance, and the flagged name is that of the last row that names a treatment and
  flags it.
\<close>

lemma fst_put_summary: "map fst (put_summary tbl name sm) = add_name name (map fst tbl)"
proof -
  have "map fst (map (\<lambda>(k, v). if k = name then (k, sm) else (k, v)) tbl) = map fst tbl"
    by (induction tbl) auto
  then show ?thesis by (simp add: put_summary_def add_name_def)
qed

lemma aggregate_row_step:
  "aggregate_row numberOf cm r (tbl, flag) =
     (if treatmentName cm r = [] then (tbl, flag)
      else (fst (aggregate_row numberOf cm r (tbl, flag)),
            if flags_control cm r then Some (treatmentName cm r) else flag))"
  "treatmentName cm r \<noteq> [] \<Longrightarrow>
     map fst (fst (aggregate_row numberOf cm r (tbl, flag)))
       = add_name (treatmentName cm r) (map fst tbl)"
  by (simp_all add: aggregate_row_def Let_def fst_put_summary)

lemma fold_aggregate_row:
  "map fst (fst (fold (aggregate_row numberOf cm) rows (tbl, flag)))
     = fold add_name (map (treatmentName cm) (filter (\<lambda>r. treatmentName cm r \<noteq> []) rows))
         (map fst tbl)
 \<and> snd (fold (aggregate_row numberOf cm) rows (tbl, flag))
     = (if filter (flags_control cm) (filter (\<lambda>r. treatmentName cm r \<noteq> []) rows) \<noteq> []
        then Some (treatmentName cm
               (last (filter (flags_control cm) (filter (\<lambda>r. treatmentName cm r \<noteq> []) rows))))
        else flag)"
proof (induction rows arbitrary: tbl flag)
  case Nil
  then show ?case by simp
next
  case (Cons r rows)
  show ?case
  proof (cases "treatmentName cm r = []")
    case True
    then have "aggregate_row numberOf cm r (tbl, flag) = (tbl, flag)"
      by (simp add: aggregate_row_step(1))
    with True Cons [of tbl flag] show ?thesis by simp
  next
    case False
    define tbl' where "tbl' = fst (aggregate_row numberOf cm r (tbl, flag))"
    define flag' where "flag' = (if flags_control cm r then Some (treatmentName cm r) else flag)"
    have step: "aggregate_row numberOf cm r (tbl, flag) = (tbl', flag')"
      using False aggregate_row_step(1) [of numberOf cm r tbl flag]
      by (simp add: tbl'_def flag'_def)
    have keys: "map fst tbl' = add_name (treatmentName cm r) (map fst tbl)"
      using False by (simp add: tbl'_def aggregate_row_step(2))
    from Cons [of tbl' flag'] step keys False show ?thesis
      by (auto simp add: flag'_def)
  qed
qed

lemma decide_control_None:
  assumes "names \<noteq> []"
  shows "decide_control names None =
     Some (case find (\<lambda>name. str_includes (toLowerCase name) ''control'') names of
             Some name \<Rightarrow> name | None \<Rightarrow> hd names)"
  using assms by (cases names) (simp_all add: decide_control_def split: option.splits)

lemma decide_control_mem:
  assumes "decide_control names flag = Some c" and "flag = None"
  shows "c \<in> set names"
proof (cases "find (\<lambda>name. str_includes (toLowerCase name) ''control'') names")
  case None
  with assms show ?thesis
    by (cases names) (simp_all add: decide_control_def)
next
  case (Some n)
  then have "n \<in> set names" by (auto simp add: find_Some_iff)
  with assms Some show ?thesis by (simp add: decide_control_def)
qed

lemma set_insert_desc: "set (insert_desc r xs) = insert r (set xs)"
  by (induction xs) auto

lemma length_insert_desc: "length (insert_desc r xs) = Suc (length xs)"
  by (induction xs) auto

lemma set_sort_desc: "set (sort_desc rs) = set rs"
  by (induction rs) (simp_all add: sort_desc_def set_insert_desc)

lemma length_sort_desc: "length (sort_desc rs) = length rs"
  by (induction rs) (simp_all add: sort_desc_def length_insert_desc)

lemma sort_key_not_NaN: "sort_key r \<noteq> NaN"
  by (simp add: sort_key_def)

lemma jlt_asym: "jlt a b \<Longrightarrow> \<not> jlt b a"
  by (cases a; cases b) simp_all

lemma jlt_cotrans: "b \<noteq> NaN \<Longrightarrow> jlt a c \<Longrightarrow> jlt a b \<or> jlt b c"
  by (cases a; cases b; cases c) auto

text \<open>The sort.\<close>

lemma sorted_insert_desc:
  assumes "sorted_wrt not_below xs"
  shows "sorted_wrt not_below (insert_desc r xs)"
  using assms
proof (induction xs)
  case Nil
  then show ?case by simp
next
  case (Cons x xs)
  show ?case
  proof (cases "jlt (sort_key r) (sort_key x)")
    case True
    have "not_below x y" if "y \<in> set (insert_desc r xs)" for y
    proof (cases "y = r")
      case True
      with \<open>jlt (sort_key r) (sort_key x)\<close> show ?thesis
        by (simp add: not_below_def jlt_asym)
    next
      case False
      with that have "y \<in> set xs" by (simp add: set_insert_desc)
      with Cons.prems show ?thesis by simp
    qed
    with True Cons show ?thesis by simp
  next
    case False
    have "not_below r y" if "y \<in> set xs" for y
    proof -
      from that Cons.prems have "\<not> jlt (sort_key x) (sort_key y)"
        by (simp add: not_below_def)
      with False jlt_cotrans [of "sort_key x" "sort_key r" "sort_key y"] sort_key_not_NaN
      show ?thesis by (auto simp add: not_below_def)
    qed
    with False Cons.prems show ?thesis
      by (simp add: not_below_def)
  qed
qed

lemma sorted_sort_desc: "sorted_wrt not_below (sort_desc rs)"
  by (induction rs) (simp_all add: sort_desc_def sorted_insert_desc)

text \<open>The ranks.\<close>

lemma assign_ranks_nth:
  "assign_ranks rs = map (\<lambda>i. (rs ! i)\<lparr> cr_rank := i + 1 \<rparr>) [0..<length rs]"
  by (rule nth_equalityI) (simp_all add: assign_ranks_def)

lemma ranks_assign_ranks: "map cr_rank (assign_ranks rs) = [1..<length rs + 1]"
proof -
  have "map cr_rank (assign_ranks rs) = map Suc [0..<length rs]"
    by (simp add: assign_ranks_nth)
  then show ?thesis by (simp add: map_Suc_upt)
qed

lemma names_assign_ranks: "map cr_name (assign_ranks rs) = map cr_name rs"
  by (rule nth_equalityI) (simp_all add: assign_ranks_nth)

lemma isControl_assign_ranks: "map cr_isControl (assign_ranks rs) = map cr_isControl rs"
  by (rule nth_equalityI) (simp_all add: assign_ranks_nth)

lemma sorted_assign_ranks:
  assumes "sorted_wrt not_below rs"
  shows "sorted_wrt not_below (assign_ranks rs)"
proof -
  have k: "sort_key (r\<lparr> cr_rank := n \<rparr>) = sort_key r" for r n
    by (simp add: sort_key_def)
  have "not_below ((rs ! i)\<lparr> cr_rank := i + 1 \<rparr>) ((rs ! j)\<lparr> cr_rank := j + 1 \<rparr>)"
    if "i < j" "j < length rs" for i j
    using assms that
    by (simp add: sorted_wrt_iff_nth_less not_below_def k)
  then show ?thesis
    by (simp add: assign_ranks_nth sorted_wrt_iff_nth_less)
qed

lemma cba_metrics_fields:
  "cr_name (cba_metrics c p fb fc t) = tt_name t"
  "cr_isControl (cba_metrics c p fb fc t) = (tt_name t = c)"
  by (simp_all add: cba_metrics_def Let_def)

lemma with_delta_fields:
  "cr_name (with_delta c r) = cr_name r"
  "cr_isControl (with_delta c r) = cr_isControl r"
  by (simp_all add: with_delta_def)

lemma with_delta_metrics:
  "cr_pvBenefits (with_delta c r) = cr_pvBenefits r"
  "cr_pvTotalCosts (with_delta c r) = cr_pvTotalCosts r"
  "cr_npv (with_delta c r) = cr_npv r"
  "cr_deltaPvBenefits (with_delta c r) = cr_pvBenefits r - cr_pvBenefits c"
  "cr_deltaPvCosts (with_delta c r) = cr_pvTotalCosts r - cr_pvTotalCosts c"
  "cr_deltaNpv (with_delta c r) = cr_npv r - cr_npv c"
  by (simp_all add: with_delta_def)

text \<open>Every ranked result is a result with its differences against the control and a rank.\<close>

lemma ranked_elem:
  assumes "r \<in> set (assign_ranks (sort_desc (map (with_delta c0) results)))"
  shows "\<exists>q \<in> set results. \<exists>k. r = (with_delta c0 q)\<lparr> cr_rank := k \<rparr>"
proof -
  define sorted where "sorted = sort_desc (map (with_delta c0) results)"
  from assms obtain i where i: "i < length sorted" "r = (sorted ! i)\<lparr> cr_rank := i + 1 \<rparr>"
    by (auto simp add: sorted_def assign_ranks_nth)
  then have "sorted ! i \<in> set sorted" by simp
  then have "sorted ! i \<in> with_delta c0 ` set results"
    by (simp add: sorted_def set_sort_desc)
  then obtain q where "q \<in> set results" "sorted ! i = with_delta c0 q" by auto
  with i show ?thesis by auto
qed

lemma computeCBA_ranks_against:
  assumes ctl: "ag_controlName ag = Some c" and mem: "c \<in> set (map tt_name (ag_treatments ag))"
    and ne: "c \<noteq> []" and dist: "distinct (map tt_name (ag_treatments ag))"
  shows "\<exists>res. computeCBA ag ps = Some res
       \<and> cr_name (rs_control res) = c
       \<and> rs_control res \<in> set (rs_treatments res)
       \<and> set (map cr_name (rs_treatments res)) = set (map tt_name (ag_treatments ag))
       \<and> map cr_rank (rs_treatments res) = [1..<length (ag_treatments ag) + 1]
       \<and> sorted_wrt not_below (rs_treatments res)
       \<and> (\<forall>r \<in> set (rs_treatments res).
             cr_isControl r = (cr_name r = c)
           \<and> cr_deltaPvBenefits r = cr_pvBenefits r - cr_pvBenefits (rs_control res)
           \<and> cr_deltaPvCosts r = cr_pvTotalCosts r - cr_pvTotalCosts (rs_control res)
           \<and> cr_deltaNpv r = cr_npv r - cr_npv (rs_control res))"
proof -
  define price where "price = num_or (pricePerTonne ps) 0"
  define years where "years = max 1 (year_or (p_years ps) 1)"
  define persistence where "persistence = max 1 (min years (year_or (persistenceYears ps) years))"
  define fb where "fb = discountFactorSum (Num (discountRate ps)) persistence"
  define fc where "fc = discountFactorSum (Num (discountRate ps)) years"
  define results where "results = map (cba_metrics c price fb fc) (ag_treatments ag)"
  define controlRes where "controlRes = control_result results"
  define sorted where "sorted = sort_desc (map (with_delta controlRes) results)"
  define ranked where "ranked = assign_ranks sorted"
  define res where "res = \<lparr> rs_treatments = ranked,
      rs_control = (case find (\<lambda>r. cr_name r = cr_name controlRes) ranked of
                      Some x \<Rightarrow> x | None \<Rightarrow> controlRes) \<rparr>"
  have nonempty: "ag_treatments ag \<noteq> []" using mem by auto
  have compute: "computeCBA ag ps = Some res"
    unfolding computeCBA_def Let_def res_def ranked_def sorted_def controlRes_def
      results_def fb_def fc_def persistence_def years_def price_def
    by (simp only: ctl option.case length_0_conv nonempty ne simp_thms if_False)
  have names_results: "map cr_name results = map tt_name (ag_treatments ag)"
    by (simp add: results_def cba_metrics_fields comp_def)
  with dist have inj: "inj_on cr_name (set results)"
    by (metis distinct_map)
  have flag_results: "cr_isControl r = (cr_name r = c)" if "r \<in> set results" for r
    using that by (auto simp add: results_def cba_metrics_fields)
  have "\<exists>r \<in> set results. cr_isControl r"
  proof -
    from mem names_results obtain r where "r \<in> set results" "cr_name r = c"
      by (metis (no_types, lifting) image_iff list.set_map)
    with flag_results show ?thesis by blast
  qed
  then obtain r0 where r0: "find cr_isControl results = Some r0"
    by (cases "find cr_isControl results") (auto simp add: find_None_iff)
  then have r0in: "r0 \<in> set results" and "cr_isControl r0"
    by (auto simp add: find_Some_iff)
  with r0 flag_results have control_name: "cr_name controlRes = c"
    and control_in: "controlRes \<in> set results"
    by (simp_all add: controlRes_def control_result_def)
  have elem: "\<exists>q \<in> set results. \<exists>k. r = (with_delta controlRes q)\<lparr> cr_rank := k \<rparr>"
    if "r \<in> set ranked" for r
    using that ranked_elem [of r controlRes results] by (simp add: ranked_def sorted_def)
  have set_sorted: "set sorted = with_delta controlRes ` set results"
    by (simp add: sorted_def set_sort_desc)
  have names_ranked: "map cr_name ranked = map cr_name sorted"
    by (simp add: ranked_def names_assign_ranks)
  have names_set: "set (map cr_name ranked) = set (map tt_name (ag_treatments ag))"
  proof -
    have "set (map cr_name ranked) = cr_name ` set sorted"
      by (simp add: names_ranked)
    also have "\<dots> = cr_name ` set results"
      by (simp add: set_sorted image_image with_delta_fields)
    also have "\<dots> = set (map tt_name (ag_treatments ag))"
      using names_results by (metis list.set_map)
    finally show ?thesis .
  qed
  have "c \<in> set (map cr_name ranked)"
    using mem names_set by simp
  then obtain x where x: "find (\<lambda>r. cr_name r = cr_name controlRes) ranked = Some x"
    by (cases "find (\<lambda>r. cr_name r = cr_name controlRes) ranked")
      (auto simp add: find_None_iff control_name)
  then have xin: "x \<in> set ranked" and xname: "cr_name x = c"
    by (auto simp add: find_Some_iff control_name in_set_conv_nth)
  have control: "rs_control res = x"
    using x by (simp add: res_def)
  from elem [OF xin] obtain q0 k0 where q0: "q0 \<in> set results"
    "x = (with_delta controlRes q0)\<lparr> cr_rank := k0 \<rparr>"
    by blast
  with xname have "cr_name q0 = cr_name controlRes"
    by (simp add: with_delta_fields control_name)
  with inj q0(1) control_in have "q0 = controlRes"
    by (simp add: inj_on_def)
  with q0 have xmetrics: "cr_pvBenefits x = cr_pvBenefits controlRes"
    "cr_pvTotalCosts x = cr_pvTotalCosts controlRes" "cr_npv x = cr_npv controlRes"
    by (simp_all add: with_delta_metrics)
  have each: "cr_isControl r = (cr_name r = c)
      \<and> cr_deltaPvBenefits r = cr_pvBenefits r - cr_pvBenefits x
      \<and> cr_deltaPvCosts r = cr_pvTotalCosts r - cr_pvTotalCosts x
      \<and> cr_deltaNpv r = cr_npv r - cr_npv x"
    if "r \<in> set ranked" for r
  proof -
    from elem [OF that] obtain q k where q: "q \<in> set results"
      "r = (with_delta controlRes q)\<lparr> cr_rank := k \<rparr>"
      by blast
    with flag_results [OF q(1)] show ?thesis
      by (simp add: with_delta_metrics with_delta_fields xmetrics)
  qed
  have length_ranked: "length sorted = length (ag_treatments ag)"
    by (simp add: sorted_def length_sort_desc results_def)
  have "cr_name (rs_control res) = c" "rs_control res \<in> set (rs_treatments res)"
    using xin xname control by (simp_all add: res_def)
  moreover have "set (map cr_name (rs_treatments res)) = set (map tt_name (ag_treatments ag))"
    using names_set by (simp add: res_def)
  moreover have "map cr_rank (rs_treatments res) = [1..<length (ag_treatments ag) + 1]"
    by (simp add: res_def ranked_def ranks_assign_ranks length_ranked)
  moreover have "sorted_wrt not_below (rs_treatments res)"
    by (simp add: res_def ranked_def sorted_def sorted_assign_ranks sorted_sort_desc)
  moreover have "\<forall>r \<in> set (rs_treatments res).
             cr_isControl r = (cr_name r = c)
           \<and> cr_deltaPvBenefits r = cr_pvBenefits r - cr_pvBenefits (rs_control res)
           \<and> cr_deltaPvCosts r = cr_pvTotalCosts r - cr_pvTotalCosts (rs_control res)
           \<and> cr_deltaNpv r = cr_npv r - cr_npv (rs_control res)"
    using each control by (simp add: res_def)
  ultimately show ?thesis using compute by blast
qed

text \<open>
  C2, as amended. For every table with headers and rows that names at least one
  treatment, whether no row flags a control or one or several rows do, the evaluation
  does not fail. The treatments are those the rows name, in the order of their first
  appearance. \<^verbatim>\<open>aggregateTreatments\<close> takes as control the treatment of the last row
  that flags one; when no row does, the first treatment whose name contains
  \<^verbatim>\<open>control\<close> in any letter case; and the first treatment when there is none either.
  \<^verbatim>\<open>computeCBA\<close> then produces results: every treatment once, ranked 1 to K by
  descending net present value, each marked as the control or not and compared with the
  control so chosen (the differences of its discounted benefits, its discounted costs and
  its net present value against the control's).
\<close>

theorem control_is_defaulted:
  assumes "headers \<noteq> []" and "rows \<noteq> []"
    and "cm = detectColumnMap headers"
    and "named = filter (\<lambda>r. treatmentName cm r \<noteq> []) rows"
    and "named \<noteq> []"
    and "flagged = filter (flags_control cm) named"
    and "names = appearances (map (treatmentName cm) named)"
    and "ag = aggregateTreatments numberOf headers rows prev"
  shows "map tt_name (ag_treatments ag) = names
       \<and> hd names = treatmentName cm (hd named)
       \<and> ag_controlName ag =
           Some (if flagged \<noteq> [] then treatmentName cm (last flagged)
                 else case find (\<lambda>name. str_includes (toLowerCase name) ''control'') names of
                        Some name \<Rightarrow> name | None \<Rightarrow> hd names)
       \<and> (\<exists>res. evaluateTrial numberOf headers rows ps prev = Some res
             \<and> Some (cr_name (rs_control res)) = ag_controlName ag
             \<and> rs_control res \<in> set (rs_treatments res)
             \<and> set (map cr_name (rs_treatments res)) = set names
             \<and> map cr_rank (rs_treatments res) = [1..<length names + 1]
             \<and> sorted_wrt not_below (rs_treatments res)
             \<and> (\<forall>r \<in> set (rs_treatments res).
                   cr_isControl r = (cr_name r = cr_name (rs_control res))
                 \<and> cr_deltaPvBenefits r = cr_pvBenefits r - cr_pvBenefits (rs_control res)
                 \<and> cr_deltaPvCosts r = cr_pvTotalCosts r - cr_pvTotalCosts (rs_control res)
                 \<and> cr_deltaNpv r = cr_npv r - cr_npv (rs_control res)))"
proof -
  obtain tbl flag where fold: "fold (aggregate_row numberOf cm) rows ([], None) = (tbl, flag)"
    by (cases "fold (aggregate_row numberOf cm) rows ([], None)")
  from fold_aggregate_row [of numberOf cm rows "[]" None] fold
  have keys: "map fst tbl = names"
    and flag: "flag = (if flagged \<noteq> [] then Some (treatmentName cm (last flagged)) else None)"
    by (simp_all add: assms(4,6,7) appearances_def)
  have set_names: "set names = treatmentName cm ` set named"
    by (simp add: assms(7) appearances_set)
  have dist: "distinct names"
    by (simp add: assms(7) appearances_distinct)
  have nonempty: "names \<noteq> []"
    using assms(5) set_names by (metis empty_is_image set_empty)
  have noblank: "[] \<notin> set names"
    using set_names by (auto simp add: assms(4))
  have first: "hd names = treatmentName cm (hd named)"
    using assms(5) by (simp add: assms(7) appearances_hd hd_map)
  have ag: "ag = \<lparr> ag_controlName = decide_control names flag,
      ag_treatments = map (\<lambda>(name, t).
                            \<lparr> tt_name = name,
                              tt_isControl = (Some name = decide_control names flag),
                              tt_avgYield = meanIgnoringNaN (s_yields t),
                              tt_avgVarCost = meanIgnoringNaN (s_variableCosts t),
                              tt_avgCapCost =
                                (if meanIgnoringNaN (s_capitalCosts t) = NaN then Num 0
                                 else meanIgnoringNaN (s_capitalCosts t)) \<rparr>) tbl \<rparr>"
    using assms(1,2) fold
    by (simp add: assms(8) aggregateTreatments_def assms(3) [symmetric] Let_def keys)
  have tnames: "map tt_name (ag_treatments ag) = names"
    by (simp add: ag comp_def case_prod_beta keys [symmetric])
  define c where "c = (if flagged \<noteq> [] then treatmentName cm (last flagged)
                 else case find (\<lambda>name. str_includes (toLowerCase name) ''control'') names of
                        Some name \<Rightarrow> name | None \<Rightarrow> hd names)"
  have ctl: "ag_controlName ag = Some c"
  proof (cases "flagged = []")
    case True
    with flag decide_control_None [OF nonempty] show ?thesis
      by (simp add: ag c_def)
  next
    case False
    with flag show ?thesis
      by (simp add: ag c_def decide_control_def)
  qed
  have cin: "c \<in> set names"
  proof (cases "flagged = []")
    case True
    with flag ctl have "decide_control names None = Some c" by (simp add: ag)
    from decide_control_mem [OF this] show ?thesis by simp
  next
    case False
    then have "last flagged \<in> set flagged" by simp
    then have "last flagged \<in> set named" by (simp add: assms(6))
    with False show ?thesis by (simp add: c_def set_names)
  qed
  with noblank have cne: "c \<noteq> []" by metis
  from computeCBA_ranks_against [OF ctl, of ps] cin cne dist tnames
  obtain res where "computeCBA ag ps = Some res" "cr_name (rs_control res) = c"
    "rs_control res \<in> set (rs_treatments res)"
    "set (map cr_name (rs_treatments res)) = set names"
    "map cr_rank (rs_treatments res) = [1..<length names + 1]"
    "sorted_wrt not_below (rs_treatments res)"
    "\<forall>r \<in> set (rs_treatments res).
             cr_isControl r = (cr_name r = c)
           \<and> cr_deltaPvBenefits r = cr_pvBenefits r - cr_pvBenefits (rs_control res)
           \<and> cr_deltaPvCosts r = cr_pvTotalCosts r - cr_pvTotalCosts (rs_control res)
           \<and> cr_deltaNpv r = cr_npv r - cr_npv (rs_control res)"
    by auto
  then have "\<exists>res. evaluateTrial numberOf headers rows ps prev = Some res
             \<and> Some (cr_name (rs_control res)) = ag_controlName ag
             \<and> rs_control res \<in> set (rs_treatments res)
             \<and> set (map cr_name (rs_treatments res)) = set names
             \<and> map cr_rank (rs_treatments res) = [1..<length names + 1]
             \<and> sorted_wrt not_below (rs_treatments res)
             \<and> (\<forall>r \<in> set (rs_treatments res).
                   cr_isControl r = (cr_name r = cr_name (rs_control res))
                 \<and> cr_deltaPvBenefits r = cr_pvBenefits r - cr_pvBenefits (rs_control res)
                 \<and> cr_deltaPvCosts r = cr_pvTotalCosts r - cr_pvTotalCosts (rs_control res)
                 \<and> cr_deltaNpv r = cr_npv r - cr_npv (rs_control res))"
    using ctl by (intro exI [of _ res]) (simp add: evaluateTrial_def assms(8) [symmetric])
  with tnames first ctl show ?thesis
    unfolding c_def by blast
qed

lemmas trial_eval =
  evaluateTrial_def aggregateTreatments_def computeCBA_def aggregate_row_def detectColumnMap_def
  decide_control_def cell_def get_summary_def put_summary_def push_num_def parseNumber_def
  parseBoolean_def flags_control_def treatmentName_def trim_def is_space_def toLowerCase_def
  lower_char_def meanIgnoringNaN_def cba_metrics_def control_result_def with_delta_def
  assign_ranks_def finiteOrNaN_def discountFactorSum_def sort_desc_def sort_key_def
  number_of_digits_def trial_headers_def trial_rows_def flagged_headers_def flagged_rows_def
  trial_params_def fresh_def num_or_def val_or_def year_or_def jgt_def minus_jsnum_def Let_def

text \<open>
  The table in which both rows are flagged: the control is Lime, the treatment of the last
  flagged row, and both treatments are ranked and compared with it.
\<close>

theorem control_is_defaulted_witness:
  "ag_controlName (aggregateTreatments number_of_digits flagged_headers flagged_rows fresh)
     = Some ''Lime''
 \<and> (\<exists>res. evaluateTrial number_of_digits flagged_headers flagged_rows trial_params fresh
            = Some res
        \<and> cr_name (rs_control res) = ''Lime''
        \<and> rs_control res \<in> set (rs_treatments res)
        \<and> set (map cr_name (rs_treatments res)) = {''Gypsum'', ''Lime''}
        \<and> map cr_rank (rs_treatments res) = [1, 2]
        \<and> (\<forall>r \<in> set (rs_treatments res).
              cr_isControl r = (cr_name r = ''Lime'')
            \<and> cr_deltaNpv r = cr_npv r - cr_npv (rs_control res)))"
proof -
  define cm where "cm = detectColumnMap flagged_headers"
  have cols: "col_treatmentName cm = Some ''treatment''" "col_isControl cm = Some ''is_control''"
    by (simp_all add: cm_def detectColumnMap_def flagged_headers_def toLowerCase_def lower_char_def)
  have nm: "map (treatmentName cm) flagged_rows = [''Gypsum'', ''Lime'']"
    by (simp add: treatmentName_def cols cell_def flagged_rows_def trim_def is_space_def)
  have fl: "map (flags_control cm) flagged_rows = [True, True]"
    by (simp add: flags_control_def cols cell_def flagged_rows_def parseBoolean_def trim_def
        is_space_def toLowerCase_def lower_char_def)
  have h1: "flagged_headers \<noteq> []" "flagged_rows \<noteq> []"
    by (simp_all add: flagged_headers_def flagged_rows_def)
  have h4: "flagged_rows = filter (\<lambda>r. treatmentName cm r \<noteq> []) flagged_rows"
    using nm by (simp add: flagged_rows_def)
  have h6: "flagged_rows = filter (flags_control cm) flagged_rows"
    using fl by (simp add: flagged_rows_def)
  have h7: "[''Gypsum'', ''Lime''] = appearances (map (treatmentName cm) flagged_rows)"
    by (simp add: nm appearances_def add_name_def)
  have lastname: "treatmentName cm (last flagged_rows) = ''Lime''"
    using nm by (simp add: flagged_rows_def)
  have up: "[1..<length [''Gypsum'', ''Lime''] + 1] = [1, 2]"
    by (simp add: upt_conv_Cons)
  have st: "set [''Gypsum'', ''Lime''] = {''Gypsum'', ''Lime''}"
    by simp
  note inst = control_is_defaulted [where headers = flagged_headers
      and rows = flagged_rows and numberOf = number_of_digits and prev = fresh
      and ps = trial_params and cm = cm and named = flagged_rows and flagged = flagged_rows
      and ag = "aggregateTreatments number_of_digits flagged_headers flagged_rows fresh"
      and names = "[''Gypsum'', ''Lime'']", OF h1 cm_def h4 h1(2) h6 h7 refl]
  note inst' = inst [unfolded lastname up st if_P [OF h1(2)]]
  from inst' have a:
    "ag_controlName (aggregateTreatments number_of_digits flagged_headers flagged_rows fresh)
       = Some ''Lime''"
    by (elim conjE)
  from inst' obtain res where
    b: "evaluateTrial number_of_digits flagged_headers flagged_rows trial_params fresh = Some res"
    and c: "Some (cr_name (rs_control res))
          = ag_controlName (aggregateTreatments number_of_digits flagged_headers flagged_rows fresh)"
    and d: "rs_control res \<in> set (rs_treatments res)"
    and e: "set (map cr_name (rs_treatments res)) = {''Gypsum'', ''Lime''}"
    and f: "map cr_rank (rs_treatments res) = [1, 2]"
    and g: "\<forall>r \<in> set (rs_treatments res).
              cr_isControl r = (cr_name r = cr_name (rs_control res))
            \<and> cr_deltaPvBenefits r = cr_pvBenefits r - cr_pvBenefits (rs_control res)
            \<and> cr_deltaPvCosts r = cr_pvTotalCosts r - cr_pvTotalCosts (rs_control res)
            \<and> cr_deltaNpv r = cr_npv r - cr_npv (rs_control res)"
    by (elim conjE exE)
  from a c have n: "cr_name (rs_control res) = ''Lime''" by (simp only: option.inject)
  from g n have "\<forall>r \<in> set (rs_treatments res).
              cr_isControl r = (cr_name r = ''Lime'')
            \<and> cr_deltaNpv r = cr_npv r - cr_npv (rs_control res)"
    by simp
  with a b d e f n show ?thesis by (intro conjI exI [of _ res])
qed

text \<open>
  C2 as stated fails. A table of two treatments (Gypsum with a yield of 3, Lime with a
  yield of 4) and no control column is evaluated without an error; Gypsum, the first
  treatment, becomes the control, and both treatments are ranked and compared with it.
  The same table with both rows flagged as the control, an ambiguous designation, is
  evaluated without an error too, with Lime as the control.
\<close>

theorem missing_control_counterexample:
  "ag_controlName (aggregateTreatments number_of_digits trial_headers trial_rows fresh)
     = Some ''Gypsum''
 \<and> map_option (\<lambda>res. (map cr_name (rs_treatments res), map cr_rank (rs_treatments res),
                        map cr_npv (rs_treatments res), map cr_deltaNpv (rs_treatments res),
                        cr_name (rs_control res)))
       (evaluateTrial number_of_digits trial_headers trial_rows trial_params fresh)
     = Some ([''Lime'', ''Gypsum''], [1, 2], [Num 4, Num 3], [Num 1, Num 0], ''Gypsum'')
 \<and> ag_controlName (aggregateTreatments number_of_digits flagged_headers flagged_rows fresh)
     = Some ''Lime''
 \<and> map_option (\<lambda>res. (map cr_name (rs_treatments res), map cr_rank (rs_treatments res),
                        map cr_npv (rs_treatments res), map cr_deltaNpv (rs_treatments res),
                        cr_name (rs_control res)))
       (evaluateTrial number_of_digits flagged_headers flagged_rows trial_params fresh)
     = Some ([''Lime'', ''Gypsum''], [1, 2], [Num 4, Num 3], [Num 0, Num (- 1)], ''Lime'')"
proof -
  have a: "ag_controlName (aggregateTreatments number_of_digits trial_headers trial_rows fresh)
     = Some ''Gypsum''"
    by (simp add: trial_eval)
  have b: "map_option (\<lambda>res. (map cr_name (rs_treatments res), map cr_rank (rs_treatments res),
                        map cr_npv (rs_treatments res), map cr_deltaNpv (rs_treatments res),
                        cr_name (rs_control res)))
       (evaluateTrial number_of_digits trial_headers trial_rows trial_params fresh)
     = Some ([''Lime'', ''Gypsum''], [1, 2], [Num 4, Num 3], [Num 1, Num 0], ''Gypsum'')"
    by (simp add: trial_eval)
  have c: "ag_controlName (aggregateTreatments number_of_digits flagged_headers flagged_rows fresh)
     = Some ''Lime''"
    by (simp add: trial_eval)
  have d: "map_option (\<lambda>res. (map cr_name (rs_treatments res), map cr_rank (rs_treatments res),
                        map cr_npv (rs_treatments res), map cr_deltaNpv (rs_treatments res),
                        cr_name (rs_control res)))
       (evaluateTrial number_of_digits flagged_headers flagged_rows trial_params fresh)
     = Some ([''Lime'', ''Gypsum''], [1, 2], [Num 4, Num 3], [Num 0, Num (- 1)], ''Lime'')"
    by (simp add: trial_eval)
  from a b c d show ?thesis by (intro conjI)
qed

end
